theory Spec2Isabelle
  imports Complex_Main
begin

section \<open>JavaScript values and outcomes\<close>

text \<open>
  A JavaScript call either returns a value, runs off the end of the function body
  (the caller then sees \<open>undefined\<close>), or throws. A property that may be
  \<open>undefined\<close> is an \<open>option\<close>, \<open>None\<close> standing for \<open>undefined\<close>.
  Evaluating an identifier that the module does not bind throws a ReferenceError.
\<close>

datatype js_error = ArgumentError | TypeError | ReferenceError

datatype 'a completion = Return 'a | NoReturn | Throw js_error

text \<open>String concatenation \<open>s + v\<close> renders an undefined operand as the text "undefined".\<close>

definition js_string :: "string option \<Rightarrow> string" where
  "js_string v = (case v of None \<Rightarrow> ''undefined'' | Some s \<Rightarrow> s)"

section \<open>WeatherLayer: the slot list and the nearest-slot lookup\<close>

text \<open>
  An element of \<open>WeatherLayer.layerNames\<close>. \<open>prePopulate\<close> writes the object literal
  \<open>{month: ..., time: ...}\<close>; \<open>nearestLayerName\<close> and the second loop of
  \<open>prePopulate\<close> read the properties \<open>name\<close> and \<open>time\<close>. \<open>time\<close> is the
  value of \<open>Date.getTime()\<close>, in milliseconds.
\<close>

record slot =
  name :: "string option"
  month :: "string option"
  time :: int

text \<open>
  The \<open>for\<close> loop of \<open>nearestLayerName\<close> (WeatherLayer.js, lines 183 to 193), from
  index \<open>i\<close> on: \<open>Some v\<close> when the loop returns \<open>v\<close>, \<open>None\<close> when it ends
  without returning.
\<close>

function nearestScan :: "slot list \<Rightarrow> int \<Rightarrow> nat \<Rightarrow> string option option" where
  "nearestScan layerNames milliseconds i =
     (if int i < int (length layerNames) - 1 then
        (let leftTime = time (layerNames ! i);
             rightTime = time (layerNames ! (i + 1))
         in if milliseconds \<ge> leftTime \<and> milliseconds \<le> rightTime then
              (let dLeft = milliseconds - leftTime;
                   dRight = rightTime - milliseconds
               in Some (if dLeft < dRight then name (layerNames ! i)
                        else name (layerNames ! (i + 1))))
            else nearestScan layerNames milliseconds (i + 1))
      else None)"
  by pat_completeness auto
termination
  by (relation "measure (\<lambda>(layerNames, milliseconds, i). length layerNames - i)") auto

declare nearestScan.simps [simp del]

text \<open>
  \<open>nearestLayerName\<close> (WeatherLayer.js, lines 172 to 194). On an empty list
  \<open>this.layerNames[0]\<close> is \<open>undefined\<close> and reading its \<open>time\<close> throws a TypeError.
\<close>

definition nearestLayerName :: "slot list \<Rightarrow> int \<Rightarrow> string option completion" where
  "nearestLayerName layerNames milliseconds =
     (if layerNames = [] then Throw TypeError
      else if milliseconds \<le> time (layerNames ! 0) then Return (name (layerNames ! 0))
      else if milliseconds \<ge> time (layerNames ! (length layerNames - 1))
           then Return (name (layerNames ! (length layerNames - 1)))
      else (case nearestScan layerNames milliseconds 0 of
              Some v \<Rightarrow> Return v
            | None \<Rightarrow> NoReturn))"

section \<open>PeriodicTimeSequence\<close>

text \<open>
  Modelled from the spec: PeriodicTimeSequence (util/PeriodicTimeSequence.js is not among
  the sources). The spec gives it a start, an end and an interval duration; \<open>current()\<close>
  starts at \<open>start\<close>; \<open>advance()\<close> moves the current time forward by the interval and
  wraps to \<open>start\<close> when the result exceeds \<open>end\<close>; the slot table is sized by
  \<open>(end - start) / interval\<close>. Times and durations are milliseconds.
\<close>

record timeSequence =
  startTime :: int
  endTime :: int
  period :: int
  currentTime :: int

definition PeriodicTimeSequence :: "int \<Rightarrow> int \<Rightarrow> int \<Rightarrow> timeSequence" where
  "PeriodicTimeSequence start end interval =
     \<lparr>startTime = start, endTime = end, period = interval, currentTime = start\<rparr>"

definition intervalMilliseconds :: "timeSequence \<Rightarrow> int" where
  "intervalMilliseconds ts = endTime ts - startTime ts"

definition incrementTime :: "int \<Rightarrow> int \<Rightarrow> int" where
  "incrementTime t p = t + p"

definition nextTime :: "timeSequence \<Rightarrow> timeSequence" where
  "nextTime ts =
     (let t = incrementTime (currentTime ts) (period ts)
      in if t > endTime ts then ts\<lparr>currentTime := startTime ts\<rparr>
         else ts\<lparr>currentTime := t\<rparr>)"

section \<open>Number.prototype.toString and array element assignment\<close>

text \<open>\<open>i.toString()\<close> for a non-negative integer: its decimal digits, no padding.\<close>

definition digit :: "nat \<Rightarrow> char" where
  "digit d = ''0123456789'' ! d"

function toString :: "nat \<Rightarrow> string" where
  "toString n = (if n < 10 then [digit n] else toString (n div 10) @ [digit (n mod 10)])"
  by pat_completeness auto
termination
  by (relation "measure (\<lambda>n. n)") auto

declare toString.simps [simp del]

text \<open>
  \<open>a[i] = v\<close> on an array: replaces element \<open>i\<close>, or appends when \<open>i\<close> is the
  length. The code below writes the indices 0, 1, 2, ... in order, so an index beyond the
  length (where JavaScript would leave holes) does not arise.
\<close>

definition array_put :: "'a list \<Rightarrow> nat \<Rightarrow> 'a \<Rightarrow> 'a list" where
  "array_put xs i v = (if i < length xs then xs[i := v] else xs @ [v])"

section \<open>Layers\<close>

text \<open>
  Modelled from the spec: the Layer base class (layer/Layer.js and layer/RenderableLayer.js
  are not among the sources). The spec names the layer-level display parameters handed to
  the renderer: an opacity in [0,1] and an optional detail control; \<open>inCurrentFrame\<close> is
  the flag \<open>doRender\<close> copies from the sub-layer. \<open>Layer\<close> is a freshly constructed base
  object.
\<close>

record layer =
  opacity :: real
  detailControl :: "real option"
  inCurrentFrame :: bool

definition Layer :: layer where
  "Layer = \<lparr>opacity = 1, detailControl = None, inCurrentFrame = False\<rparr>"

text \<open>The one-image sub-layer objects held in \<open>layers\<close>: a Layer with its \<open>imagePath\<close>.\<close>

record oneImageLayer = layer +
  imagePath :: string

text \<open>
  The constructor of BMNGOneImageLayer (layer/BMNGOneImageLayer.js, lines 29 to 47): an
  empty or missing path is replaced by the default image.
\<close>

definition BMNGOneImageLayer :: "string option \<Rightarrow> oneImageLayer" where
  "BMNGOneImageLayer img_path =
     layer.extend Layer
       (oneImageLayer.fields
         (case img_path of
            None \<Rightarrow> ''images/BMNG_world.topo.bathy.200405.3.2048x1024.jpg''
          | Some p \<Rightarrow> if p = [] then ''images/BMNG_world.topo.bathy.200405.3.2048x1024.jpg''
                      else p))"

text \<open>
  The fields shared by WeatherLayer and TimeSeriesLayer. \<open>layerNames\<close> is an array of
  slots in WeatherLayer and an object from the string form of a time to a name in
  TimeSeriesLayer; \<open>availableTimes\<close> is the class-level array, shared by all instances
  of the class (the record holds its current value); \<open>time_ms\<close> is
  \<open>this.time.getTime()\<close>.
\<close>

record 'n seriesLayer = layer +
  time_ms :: int
  timeSequence :: timeSequence
  pathToData :: string
  layers :: "string \<rightharpoonup> oneImageLayer"
  layerNames :: 'n
  availableTimes :: "int list"

type_synonym weatherLayer = "slot list seriesLayer"

text \<open>
  The constructor of WeatherLayer (WeatherLayer.js, lines 39 to 60) with the default
  initial time: 2016-07-12 is 1468281600000 ms, 2016-07-18 is 1468800000000 ms and PT3H is
  10800000 ms.
\<close>

definition WeatherLayer :: weatherLayer where
  "WeatherLayer =
     layer.extend Layer
       (seriesLayer.fields 1468281600000
          (PeriodicTimeSequence 1468281600000 1468800000000 10800000)
          ''/standalonedata/WORLD-CED/test/'' Map.empty [] [])"

text \<open>\<open>createSubLayer\<close> (WeatherLayer.js, lines 166 to 169).\<close>

definition WeatherLayer_createSubLayer :: "string option \<Rightarrow> weatherLayer \<Rightarrow> weatherLayer" where
  "WeatherLayer_createSubLayer layerName this =
     (let dataPath = pathToData this @ js_string layerName @ ''.png''
      in this\<lparr>layers := (layers this)(js_string layerName \<mapsto> BMNGOneImageLayer (Some dataPath))\<rparr>)"

text \<open>
  The first loop of \<open>prePopulate\<close> (WeatherLayer.js, lines 92 to 106), from index \<open>i\<close>
  on; \<open>len\<close> is the JavaScript number \<open>length\<close>, which need not be an integer.
\<close>

function WeatherLayer_fill :: "rat \<Rightarrow> nat \<Rightarrow> weatherLayer \<Rightarrow> weatherLayer" where
  "WeatherLayer_fill len i this =
     (if of_nat i < len then
        (let month = (if i < 10 then ''0'' @ toString i else toString i);
             t = currentTime (timeSequence this)
         in WeatherLayer_fill len (i + 1)
              (this\<lparr>availableTimes := array_put (availableTimes this) i t,
                    layerNames := array_put (layerNames this) i
                                    \<lparr>name = None, month = Some month, time = t\<rparr>,
                    timeSequence := nextTime (timeSequence this)\<rparr>))
      else this)"
  by pat_completeness auto
termination
proof (relation "measure (\<lambda>(len, i, this). nat \<lceil>len\<rceil> - i)")
  show "wf (measure (\<lambda>(len, i, this). nat \<lceil>len\<rceil> - i))" by simp
next
  fix len :: rat and i :: nat and this :: weatherLayer and x xa
  assume "of_nat i < len"
  then have "int i < \<lceil>len\<rceil>" by (simp add: less_ceiling_iff)
  then show "((len, i + 1,
      this\<lparr>availableTimes := array_put (availableTimes this) i xa,
           layerNames := array_put (layerNames this) i \<lparr>name = None, month = Some x, time = xa\<rparr>,
           timeSequence := nextTime (timeSequence this)\<rparr>), len, i, this)
    \<in> measure (\<lambda>(len, i, this). nat \<lceil>len\<rceil> - i)"
    by simp
qed

declare WeatherLayer_fill.simps [simp del]

text \<open>
  The second loop of \<open>prePopulate\<close> (WeatherLayer.js, lines 111 to 119) over the
  remaining elements of \<open>layerNames\<close>; the call of the sub-layer's \<open>prePopulate\<close> is
  commented out in the source.
\<close>

fun WeatherLayer_subLayers :: "slot list \<Rightarrow> weatherLayer \<Rightarrow> weatherLayer" where
  "WeatherLayer_subLayers [] this = this"
| "WeatherLayer_subLayers (e # es) this =
     (let layerName = name e
      in WeatherLayer_subLayers es
           (if layers this (js_string layerName) = None
            then WeatherLayer_createSubLayer layerName this else this))"

text \<open>
  \<open>prePopulate\<close> (WeatherLayer.js, lines 81 to 120). \<open>wwd\<close> is \<open>None\<close> for a null or
  undefined world window. The result is \<open>None\<close> when the call does not return: with a
  zero period and a positive range \<open>length\<close> is \<open>Infinity\<close> and the first loop never
  ends; with a zero period otherwise \<open>length\<close> is \<open>-Infinity\<close> or \<open>NaN\<close>, the
  comparison with the array length is unequal and the loop body never runs.
\<close>

definition WeatherLayer_prePopulate ::
  "'w option \<Rightarrow> weatherLayer \<Rightarrow> (js_error + weatherLayer) option" where
  "WeatherLayer_prePopulate wwd this =
     (case wwd of
        None \<Rightarrow> Some (Inl ArgumentError)
      | Some w \<Rightarrow>
          (let ts = timeSequence this;
               periodMs = incrementTime (currentTime ts) (period ts) - currentTime ts
           in if periodMs = 0 then
                (if intervalMilliseconds ts > 0 then None
                 else Some (Inr (WeatherLayer_subLayers (layerNames this) this)))
              else
                (let len = of_int (intervalMilliseconds ts) / of_int periodMs + 1;
                     this1 = (if of_nat (length (availableTimes this)) \<noteq> len
                              then WeatherLayer_fill len 0 this else this)
                 in Some (Inr (WeatherLayer_subLayers (layerNames this1) this1)))))"

text \<open>
  \<open>isPrePopulated\<close> (WeatherLayer.js, lines 130 to 139): the loop over the sub-layers is
  commented out and the function returns \<open>true\<close>.
\<close>

definition WeatherLayer_isPrePopulated :: "'w option \<Rightarrow> weatherLayer \<Rightarrow> bool" where
  "WeatherLayer_isPrePopulated wwd this = True"

text \<open>
  \<open>nearestLayer\<close> (WeatherLayer.js, lines 156 to 164). The returned layer is the object
  stored in \<open>layers\<close>, so the result is its property key together with the updated
  layer; a lookup that ends without returning yields \<open>undefined\<close>.
\<close>

definition nearestLayer :: "int \<Rightarrow> weatherLayer \<Rightarrow> js_error + string \<times> weatherLayer" where
  "nearestLayer t this =
     (case nearestLayerName (layerNames this) t of
        Throw e \<Rightarrow> Inl e
      | Return nearestName \<Rightarrow>
          Inr (js_string nearestName,
               if layers this (js_string nearestName) = None
               then WeatherLayer_createSubLayer nearestName this else this)
      | NoReturn \<Rightarrow>
          Inr (js_string None,
               if layers this (js_string None) = None
               then WeatherLayer_createSubLayer None this else this))"

text \<open>
  \<open>doRender\<close> (WeatherLayer.js, lines 141 to 153). \<open>subRender\<close> is the sub-layer's own
  \<open>doRender(dc)\<close>, the external renderer: it receives the sub-layer and may update it.
  A detail control is truthy when it is defined and not zero.
\<close>

definition WeatherLayer_doRender ::
  "(oneImageLayer \<Rightarrow> oneImageLayer) \<Rightarrow> weatherLayer \<Rightarrow> js_error + weatherLayer" where
  "WeatherLayer_doRender subRender this =
     (case nearestLayer (time_ms this) this of
        Inl e \<Rightarrow> Inl e
      | Inr (key, this1) \<Rightarrow>
          (case layers this1 key of
             None \<Rightarrow> Inl TypeError
           | Some l \<Rightarrow>
               (let l1 = l\<lparr>opacity := opacity this1\<rparr>;
                    l2 = (if detailControl this1 \<noteq> None \<and> detailControl this1 \<noteq> Some 0
                          then l1\<lparr>detailControl := detailControl this1\<rparr> else l1);
                    l3 = subRender l2
                in Inr (this1\<lparr>layers := (layers this1)(key \<mapsto> l3),
                               inCurrentFrame := inCurrentFrame l3\<rparr>))))"

section \<open>The resource cache\<close>

text \<open>Modelled from the spec: the resource cache (cache/GpuResourceCache.js is not among
  the sources), a keyed store from a resource identifier to its loaded representation and
  its size, with a presence check and an insertion.\<close>

record texture =
  imageSource :: string
  tex_size :: nat

type_synonym gpuResourceCache = "string \<rightharpoonup> texture \<times> nat"

definition containsResource :: "gpuResourceCache \<Rightarrow> string \<Rightarrow> bool" where
  "containsResource cache key = (cache key \<noteq> None)"

definition putResource :: "gpuResourceCache \<Rightarrow> string \<Rightarrow> texture \<Rightarrow> nat \<Rightarrow> gpuResourceCache" where
  "putResource cache key resource sz = cache(key \<mapsto> (resource, sz))"

text \<open>
  \<open>isImageLayerInMemory\<close>, the same in BMNGOneImageLayer.js (lines 80 to 82) and in
  apps/Weather/layer/OneImageLayer.js (lines 80 to 82).
\<close>

definition isImageLayerInMemory :: "gpuResourceCache \<Rightarrow> 'a oneImageLayer_scheme \<Rightarrow> bool" where
  "isImageLayerInMemory cache tile = containsResource cache (imagePath tile)"

section \<open>TimeSeriesLayer\<close>

text \<open>
  In TimeSeriesLayer \<open>layerNames\<close> is an object whose property keys are the string
  forms of the slot times (\<open>this.layerNames[this.timeSequence.currentTime] = name\<close>) and
  whose values are the slot names, enumerated in insertion order: a list of pairs of a
  key and its name, the keys distinct.
\<close>

type_synonym timeSeriesLayer = "(string \<times> string) list seriesLayer"

text \<open>
  \<open>isPrePopulated\<close> of OneImageLayer (apps/Weather/layer/OneImageLayer.js, lines 57 to
  64). The module does not bind \<open>ArgumentError\<close>, so the \<open>throw\<close> for a missing world
  window raises a ReferenceError.
\<close>

definition OneImageLayer_isPrePopulated ::
  "'w option \<Rightarrow> gpuResourceCache \<Rightarrow> oneImageLayer \<Rightarrow> js_error + bool" where
  "OneImageLayer_isPrePopulated wwd cache this =
     (case wwd of None \<Rightarrow> Inl ReferenceError
      | Some w \<Rightarrow> Inr (isImageLayerInMemory cache this))"

text \<open>
  The loop of \<open>isPrePopulated\<close> (TimeSeriesLayer, lines 129 to 137) over the remaining
  properties of \<open>layerNames\<close>: a name without a sub-layer is passed over.
\<close>

fun TimeSeriesLayer_allPopulated ::
  "'w option \<Rightarrow> gpuResourceCache \<Rightarrow> (string \<rightharpoonup> oneImageLayer) \<Rightarrow> (string \<times> string) list
   \<Rightarrow> js_error + bool" where
  "TimeSeriesLayer_allPopulated wwd cache ls [] = Inr True"
| "TimeSeriesLayer_allPopulated wwd cache ls ((key, layerName) # es) =
     (case ls layerName of
        None \<Rightarrow> TimeSeriesLayer_allPopulated wwd cache ls es
      | Some l \<Rightarrow>
          (case OneImageLayer_isPrePopulated wwd cache l of
             Inl e \<Rightarrow> Inl e
           | Inr b \<Rightarrow> if \<not> b then Inr False
                      else TimeSeriesLayer_allPopulated wwd cache ls es))"

definition TimeSeriesLayer_isPrePopulated ::
  "'w option \<Rightarrow> gpuResourceCache \<Rightarrow> timeSeriesLayer \<Rightarrow> js_error + bool" where
  "TimeSeriesLayer_isPrePopulated wwd cache this =
     TimeSeriesLayer_allPopulated wwd cache (layers this) (layerNames this)"

text \<open>
  \<open>doRender\<close> (TimeSeriesLayer, lines 140 to 150): the time is looked up directly
  under its string form, \<open>this.layerNames[this.time]\<close>, and assigning the opacity of a
  missing layer throws a TypeError. \<open>dateString\<close> is the conversion of a Date to a
  property key, a text to the second in the local time zone.
\<close>

definition TimeSeriesLayer_doRender ::
  "(int \<Rightarrow> string) \<Rightarrow> (oneImageLayer \<Rightarrow> oneImageLayer) \<Rightarrow> timeSeriesLayer
   \<Rightarrow> js_error + timeSeriesLayer" where
  "TimeSeriesLayer_doRender dateString subRender this =
     (let key = js_string (map_of (layerNames this) (dateString (time_ms this)))
      in case layers this key of
           None \<Rightarrow> Inl TypeError
         | Some l \<Rightarrow>
             (let l1 = l\<lparr>opacity := opacity this\<rparr>;
                  l2 = (if detailControl this \<noteq> None \<and> detailControl this \<noteq> Some 0
                        then l1\<lparr>detailControl := detailControl this\<rparr> else l1);
                  l3 = subRender l2
              in Inr (this\<lparr>layers := (layers this)(key \<mapsto> l3),
                           inCurrentFrame := inCurrentFrame l3\<rparr>)))"

section \<open>BMNGOneImageLayer: retrieving the image\<close>

text \<open>
  Modelled from the spec: AbsentResourceList (util/AbsentResourceList.js is not among the
  sources). The spec keeps, for an identifier that failed to load, the time it was marked
  absent; the identifier counts as absent while its cool-down, a configured duration, has
  not expired.
\<close>

record absentResourceList =
  coolDownDuration :: int
  markedAt :: "string \<rightharpoonup> int"

definition isResourceAbsent :: "absentResourceList \<Rightarrow> string \<Rightarrow> int \<Rightarrow> bool" where
  "isResourceAbsent a resourceId now =
     (case markedAt a resourceId of
        None \<Rightarrow> False
      | Some t \<Rightarrow> now - t < coolDownDuration a)"

definition markResourceAbsent :: "absentResourceList \<Rightarrow> string \<Rightarrow> int \<Rightarrow> absentResourceList" where
  "markResourceAbsent a resourceId now = a\<lparr>markedAt := (markedAt a)(resourceId \<mapsto> now)\<rparr>"

definition unmarkResourceAbsent :: "absentResourceList \<Rightarrow> string \<Rightarrow> absentResourceList" where
  "unmarkResourceAbsent a resourceId = a\<lparr>markedAt := (markedAt a)(resourceId := None)\<rparr>"

text \<open>
  Modelled from the spec: \<open>removeFromCurrentRetrievals\<close> (defined outside the sources)
  removes the identifier from the in-flight collection, the array \<open>currentRetrievals\<close>.
\<close>

definition removeFromCurrentRetrievals :: "string \<Rightarrow> string list \<Rightarrow> string list" where
  "removeFromCurrentRetrievals p rs = remove1 p rs"

text \<open>
  An \<open>Image\<close> whose \<open>src\<close> has been set and whose \<open>onload\<close> or \<open>onerror\<close> has not
  run yet: an outstanding fetch, with the variables its handlers close over, \<open>path\<close>
  for \<open>imagePath\<close> and \<open>suppress\<close> for \<open>suppressRedraw\<close>.
\<close>

record image =
  src :: string
  path :: string
  suppress :: bool

text \<open>
  The state \<open>retrieveImage\<close> and its handlers work on: the layer with its
  \<open>currentRetrievals\<close>, \<open>absentResourceList\<close> and \<open>currentTilesInvalid\<close>; the draw
  context's \<open>gpuResourceCache\<close>; the number of redraw events dispatched on the canvas;
  and the outstanding images.
\<close>

record retrievalLayer = oneImageLayer +
  currentRetrievals :: "string list"
  absentResourceList :: absentResourceList
  currentTilesInvalid :: bool
  gpuResourceCache :: gpuResourceCache
  redrawEvents :: nat
  images :: "image list"

text \<open>
  BMNGOneImageLayer.js runs in strict mode and imports RenderableLayer, Sector,
  SurfaceImage and WWUtil only (lines 9 to 19). Its functions also use the identifiers
  \<open>Logger\<close> and \<open>ArgumentError\<close>, which the module does not bind. \<open>Logger\<close> is the
  module's binding of that identifier: none.
\<close>

definition Logger :: "unit option" where
  "Logger = None"

text \<open>
  \<open>retrieveImage\<close> (BMNGOneImageLayer.js, lines 84 to 132), up to setting the image's
  \<open>src\<close>; the two handlers it installs follow. \<open>resourceUrlForTile\<close> is defined
  outside the sources and is a parameter, from the tile's path to its URL; a missing or
  empty URL is falsy. \<open>now\<close> is the current time.
\<close>

definition retrieveImage ::
  "(string \<Rightarrow> string option) \<Rightarrow> int \<Rightarrow> 'a oneImageLayer_scheme \<Rightarrow> bool \<Rightarrow> retrievalLayer
   \<Rightarrow> retrievalLayer" where
  "retrieveImage resourceUrlForTile now tile suppressRedraw this =
     (if imagePath tile \<notin> set (currentRetrievals this) then
        (if isResourceAbsent (absentResourceList this) (imagePath tile) now then this
         else
           (case resourceUrlForTile (imagePath tile) of
              None \<Rightarrow> this\<lparr>currentTilesInvalid := True\<rparr>
            | Some url \<Rightarrow>
                if url = [] then this\<lparr>currentTilesInvalid := True\<rparr>
                else this\<lparr>currentRetrievals := currentRetrievals this @ [imagePath tile],
                          images := images this @
                            [\<lparr>src = url, path = imagePath tile, suppress = suppressRedraw\<rparr>]\<rparr>))
      else this)"

text \<open>
  \<open>image.onload\<close> (lines 102 to 120). Its first statement is \<open>Logger.log(...)\<close>
  (line 103): under a module that binds no \<open>Logger\<close> it throws a ReferenceError before
  anything else runs; \<open>logger\<close> is the binding the handler sees. \<open>created\<close> is the
  result of \<open>layer.createTexture\<close>, defined outside the sources: a texture, or \<open>None\<close>
  when none is produced.
\<close>

definition onload ::
  "unit option \<Rightarrow> image \<Rightarrow> texture option \<Rightarrow> retrievalLayer \<Rightarrow> js_error + retrievalLayer" where
  "onload logger img created this =
     (case logger of
        None \<Rightarrow> Inl ReferenceError
      | Some lg \<Rightarrow>
          (let this1 = this\<lparr>currentRetrievals :=
                              removeFromCurrentRetrievals (path img) (currentRetrievals this)\<rparr>
           in case created of
                None \<Rightarrow> Inr this1
              | Some texture \<Rightarrow>
                  Inr (this1\<lparr>gpuResourceCache :=
                          putResource (gpuResourceCache this1) (path img) texture (tex_size texture),
                        currentTilesInvalid := True,
                        absentResourceList :=
                          unmarkResourceAbsent (absentResourceList this1) (path img),
                        redrawEvents := (if \<not> suppress img then redrawEvents this1 + 1
                                         else redrawEvents this1)\<rparr>)))"

text \<open>
  \<open>image.onerror\<close> (lines 122 to 126): the state after its two updates. Its last
  statement is the \<open>Logger.log(...)\<close> of line 125, which comes after both.
\<close>

definition onerror :: "image \<Rightarrow> int \<Rightarrow> retrievalLayer \<Rightarrow> retrievalLayer" where
  "onerror img now this =
     this\<lparr>currentRetrievals := removeFromCurrentRetrievals (path img) (currentRetrievals this),
          absentResourceList := markResourceAbsent (absentResourceList this) (path img) now\<rparr>"

text \<open>
  \<open>isPrePopulated\<close> and \<open>prePopulate\<close> (BMNGOneImageLayer.js, lines 51 to 77). For a
  missing world window the \<open>throw new ArgumentError(...)\<close> evaluates the unbound
  \<open>ArgumentError\<close> and raises a ReferenceError.
\<close>

definition BMNGOneImageLayer_isPrePopulated :: "'w option \<Rightarrow> retrievalLayer \<Rightarrow> js_error + bool" where
  "BMNGOneImageLayer_isPrePopulated wwd this =
     (case wwd of None \<Rightarrow> Inl ReferenceError
      | Some w \<Rightarrow> Inr (isImageLayerInMemory (gpuResourceCache this) this))"

definition BMNGOneImageLayer_prePopulate ::
  "(string \<Rightarrow> string option) \<Rightarrow> int \<Rightarrow> 'w option \<Rightarrow> retrievalLayer
   \<Rightarrow> js_error + retrievalLayer" where
  "BMNGOneImageLayer_prePopulate resourceUrlForTile now wwd this =
     (case wwd of None \<Rightarrow> Inl ReferenceError
      | Some w \<Rightarrow>
          Inr (if \<not> isImageLayerInMemory (gpuResourceCache this) this
               then retrieveImage resourceUrlForTile now this True this else this))"

text \<open>
  The event loop around one layer: a call of \<open>retrieveImage\<close> or of \<open>prePopulate\<close>, or
  the completion of the outstanding image at a position, which leaves the outstanding
  images and runs its \<open>onload\<close> or its \<open>onerror\<close>. A completion at a position that
  holds no image, and a call that throws, leave the state as it is; a handler that throws
  leaves the state as it stood when it threw.
\<close>

datatype event =
    Call_retrieveImage oneImageLayer bool int
  | Call_prePopulate int
  | Fire_onload nat "texture option"
  | Fire_onerror nat int

fun step :: "(string \<Rightarrow> string option) \<Rightarrow> retrievalLayer \<Rightarrow> event \<Rightarrow> retrievalLayer" where
  "step resourceUrlForTile this (Call_retrieveImage tile suppressRedraw now) =
     retrieveImage resourceUrlForTile now tile suppressRedraw this"
| "step resourceUrlForTile this (Call_prePopulate now) =
     (case BMNGOneImageLayer_prePopulate resourceUrlForTile now (Some ()) this of
        Inl e \<Rightarrow> this
      | Inr this1 \<Rightarrow> this1)"
| "step resourceUrlForTile this (Fire_onload k created) =
     (if k < length (images this)
      then (case onload Logger (images this ! k) created
                  (this\<lparr>images := take k (images this) @ drop (Suc k) (images this)\<rparr>) of
              Inl e \<Rightarrow> this\<lparr>images := take k (images this) @ drop (Suc k) (images this)\<rparr>
            | Inr this1 \<Rightarrow> this1)
      else this)"
| "step resourceUrlForTile this (Fire_onerror k now) =
     (if k < length (images this)
      then onerror (images this ! k) now
             (this\<lparr>images := take k (images this) @ drop (Suc k) (images this)\<rparr>)
      else this)"

definition run :: "(string \<Rightarrow> string option) \<Rightarrow> retrievalLayer \<Rightarrow> event list \<Rightarrow> retrievalLayer" where
  "run resourceUrlForTile this evs = foldl (step resourceUrlForTile) this evs"

text \<open>The number of outstanding fetches for an identifier.\<close>

definition outstanding :: "retrievalLayer \<Rightarrow> string \<Rightarrow> nat" where
  "outstanding this p = length (filter (\<lambda>img. path img = p) (images this))"

text \<open>
  A BMNGOneImageLayer on an image path as it is before any retrieval: nothing in flight,
  nothing marked absent, an empty cache, no redraw requested.
\<close>

definition newRetrievalLayer :: "string option \<Rightarrow> int \<Rightarrow> retrievalLayer" where
  "newRetrievalLayer img_path coolDown =
     oneImageLayer.extend (BMNGOneImageLayer img_path)
       (retrievalLayer.fields [] \<lparr>coolDownDuration = coolDown, markedAt = Map.empty\<rparr>
          False Map.empty 0 [])"

section \<open>Notions used in the statements\<close>




text \<open>
  The slot the first loop of \<open>prePopulate\<close> writes at index \<open>j\<close> for a sequence that
  starts at \<open>st\<close> with period \<open>p\<close>.
\<close>

definition builtSlot :: "int \<Rightarrow> int \<Rightarrow> nat \<Rightarrow> slot" where
  "builtSlot st p j =
     \<lparr>name = None, month = Some (if j < 10 then ''0'' @ toString j else toString j),
      time = st + int j * p\<rparr>"

text \<open>
  A WeatherLayer constructed after another instance has run \<open>prePopulate\<close>: the
  class-level \<open>availableTimes\<close> already holds the 49 times of the sequence, and the new
  instance's own fields are as its constructor leaves them.
\<close>

definition secondWeatherLayer :: weatherLayer where
  "secondWeatherLayer =
     WeatherLayer\<lparr>availableTimes := map (\<lambda>j. 1468281600000 + int j * 10800000) [0..<49]\<rparr>"

text \<open>
  The bookkeeping is consistent when no identifier is in flight twice, no two outstanding
  images fetch the same identifier, and every outstanding image's identifier is in flight.
\<close>

definition retrievals_consistent :: "retrievalLayer \<Rightarrow> bool" where
  "retrievals_consistent this =
     (distinct (currentRetrievals this) \<and> distinct (map path (images this)) \<and>
      set (map path (images this)) \<subseteq> set (currentRetrievals this))"


section \<open>The nearest-slot lookup\<close>

lemma nearestScan_skip:
  assumes "i \<le> k" "Suc k < length ls"
    and "\<forall>j. i \<le> j \<and> j < k \<longrightarrow> \<not> (time (ls ! j) \<le> q \<and> q \<le> time (ls ! Suc j))"
  shows "nearestScan ls q i = nearestScan ls q k"
  using assms
proof (induction "k - i" arbitrary: i)
  case 0
  then show ?case by simp
next
  case (Suc d)
  then have lt: "i < k" by simp
  with Suc.prems have nb: "\<not> (time (ls ! i) \<le> q \<and> q \<le> time (ls ! Suc i))" by simp
  have "nearestScan ls q i = nearestScan ls q (Suc i)"
    using lt Suc.prems(2) nb by (subst nearestScan.simps) (auto simp: Let_def)
  also have "\<dots> = nearestScan ls q k"
    using Suc.hyps Suc.prems lt by (intro Suc.hyps(1)) auto
  finally show ?case .
qed

lemma nearestScan_bracket:
  assumes "Suc k < length ls" "time (ls ! k) \<le> q" "q \<le> time (ls ! Suc k)"
  shows "nearestScan ls q k =
     Some (if q - time (ls ! k) < time (ls ! Suc k) - q then name (ls ! k) else name (ls ! Suc k))"
  using assms by (subst nearestScan.simps) (simp add: Let_def)

lemma sorted_times_le:
  assumes "sorted_wrt (<) (map time ls)" "i \<le> j" "j < length ls"
  shows "time (ls ! i) \<le> time (ls ! j)"
proof (cases "i = j")
  case True then show ?thesis by simp
next
  case False
  with assms have "i < j" by simp
  with assms have "map time ls ! i < map time ls ! j"
    using sorted_wrt_nth_less[OF assms(1), of i j] by simp
  with assms show ?thesis by simp
qed

lemma crossing:
  fixes f :: "nat \<Rightarrow> int"
  assumes "f 0 < q" "q < f n"
  shows "\<exists>k<n. f k \<le> q \<and> q \<le> f (Suc k)"
  using assms
proof (induction n)
  case 0 then show ?case by simp
next
  case (Suc n)
  show ?case
  proof (cases "q < f n")
    case True
    with Suc obtain k where "k < n" "f k \<le> q \<and> q \<le> f (Suc k)" by blast
    then show ?thesis by (intro exI[of _ k]) simp
  next
    case False
    with Suc.prems show ?thesis by (intro exI[of _ n]) simp
  qed
qed

lemma nearestScan_first_bracket:
  assumes "time (ls ! 0) < q" "q < time (ls ! (length ls - 1))" "ls \<noteq> []"
  shows "\<exists>k. Suc k < length ls \<and> time (ls ! k) \<le> q \<and> q \<le> time (ls ! Suc k) \<and>
     nearestScan ls q 0 =
       Some (if q - time (ls ! k) < time (ls ! Suc k) - q then name (ls ! k) else name (ls ! Suc k))"
proof -
  let ?P = "\<lambda>k. time (ls ! k) \<le> q \<and> q \<le> time (ls ! Suc k)"
  from crossing[of "\<lambda>k. time (ls ! k)" q "length ls - 1"] assms
  obtain k0 where k0: "k0 < length ls - 1" "?P k0" by blast
  define k where "k = (LEAST k. ?P k)"
  have Pk: "?P k" unfolding k_def using k0(2) by (rule LeastI)
  have kle: "k \<le> k0" unfolding k_def using k0(2) by (rule Least_le)
  have nb: "\<forall>j. 0 \<le> j \<and> j < k \<longrightarrow> \<not> ?P j"
    unfolding k_def using not_less_Least by blast
  have klt: "Suc k < length ls" using kle k0(1) by simp
  have "nearestScan ls q 0 = nearestScan ls q k"
    using klt nb by (intro nearestScan_skip) auto
  with nearestScan_bracket[OF klt] Pk klt show ?thesis by auto
qed


lemma nearestLayerName_selects:
  assumes "ls \<noteq> []"
  shows "\<exists>k<length ls. nearestLayerName ls q = Return (name (ls ! k))"
proof (cases "q \<le> time (ls ! 0)")
  case True
  then have "nearestLayerName ls q = Return (name (ls ! 0))"
    using assms by (simp add: nearestLayerName_def)
  then show ?thesis using assms by (intro exI[of _ 0]) simp
next
  case nf: False
  show ?thesis
  proof (cases "q \<ge> time (ls ! (length ls - 1))")
    case True
    then have "nearestLayerName ls q = Return (name (ls ! (length ls - 1)))"
      using assms nf by (simp add: nearestLayerName_def)
    then show ?thesis using assms by (intro exI[of _ "length ls - 1"]) simp
  next
    case nl: False
    from nearestScan_first_bracket[of ls q] nf nl assms
    obtain k where k: "Suc k < length ls"
      "nearestScan ls q 0 =
         Some (if q - time (ls ! k) < time (ls ! Suc k) - q then name (ls ! k) else name (ls ! Suc k))"
      by auto
    show ?thesis
    proof (cases "q - time (ls ! k) < time (ls ! Suc k) - q")
      case True
      then have "nearestLayerName ls q = Return (name (ls ! k))"
        using nf nl assms k(2) by (simp add: nearestLayerName_def)
      then show ?thesis using k(1) by (intro exI[of _ k]) simp
    next
      case False
      then have "nearestLayerName ls q = Return (name (ls ! Suc k))"
        using nf nl assms k(2) by (simp add: nearestLayerName_def)
      then show ?thesis using k(1) by (intro exI[of _ "Suc k"]) simp
    qed
  qed
qed

text \<open>
  Claim C5. On a non-empty slot list with strictly ascending timestamps the lookup always
  returns the name of a slot of the list: of the first slot for a query at or before the
  first timestamp, of the last slot for a query at or after the last timestamp, and of
  some slot of the list for every query. It neither throws nor ends without returning.
\<close>

theorem nearest_total_and_clamped:
  assumes "ls \<noteq> []" and "sorted_wrt (<) (map time ls)"
  shows "(q \<le> time (hd ls) \<longrightarrow> nearestLayerName ls q = Return (name (hd ls)))
       \<and> (q \<ge> time (last ls) \<longrightarrow> nearestLayerName ls q = Return (name (last ls)))
       \<and> (\<exists>k<length ls. nearestLayerName ls q = Return (name (ls ! k)))"
proof -
  have hd0: "hd ls = ls ! 0" using assms(1) by (simp add: hd_conv_nth)
  have lastn: "last ls = ls ! (length ls - 1)" using assms(1) by (simp add: last_conv_nth)
  have len: "0 < length ls" using assms(1) by simp
  have first: "q \<le> time (hd ls) \<Longrightarrow> nearestLayerName ls q = Return (name (hd ls))"
    using assms(1) by (simp add: nearestLayerName_def hd0)
  have lastc: "nearestLayerName ls q = Return (name (last ls))" if ge: "q \<ge> time (last ls)"
  proof (cases "q \<le> time (ls ! 0)")
    case False
    then show ?thesis using assms(1) ge by (simp add: nearestLayerName_def lastn)
  next
    case True
    have "length ls - 1 = 0"
    proof (rule ccontr)
      assume "length ls - 1 \<noteq> 0"
      then have "0 < length ls - 1" by simp
      then have "map time ls ! 0 < map time ls ! (length ls - 1)"
        using sorted_wrt_nth_less[OF assms(2), of 0 "length ls - 1"] by simp
      then show False using True ge len by (simp add: lastn)
    qed
    then show ?thesis using assms(1) True by (simp add: nearestLayerName_def lastn)
  qed
  from first lastc nearestLayerName_selects[OF assms(1), of q] show ?thesis by blast
qed

theorem nearest_total_and_clamped_witness:
  "nearestLayerName
     [\<lparr>name = Some ''00'', month = None, time = 0\<rparr>,
      \<lparr>name = Some ''01'', month = None, time = 10800000\<rparr>,
      \<lparr>name = Some ''02'', month = None, time = 21600000\<rparr>] 0 = Return (Some ''00'')
   \<and> nearestLayerName
     [\<lparr>name = Some ''00'', month = None, time = 0\<rparr>,
      \<lparr>name = Some ''01'', month = None, time = 10800000\<rparr>,
      \<lparr>name = Some ''02'', month = None, time = 21600000\<rparr>] 21600000 = Return (Some ''02'')"
  using nearest_total_and_clamped
          [of "[\<lparr>name = Some ''00'', month = None, time = 0\<rparr>,
                \<lparr>name = Some ''01'', month = None, time = 10800000\<rparr>,
                \<lparr>name = Some ''02'', month = None, time = 21600000\<rparr>]" 0]
        nearest_total_and_clamped
          [of "[\<lparr>name = Some ''00'', month = None, time = 0\<rparr>,
                \<lparr>name = Some ''01'', month = None, time = 10800000\<rparr>,
                \<lparr>name = Some ''02'', month = None, time = 21600000\<rparr>]" 21600000]
  by simp

text \<open>
  Claim C2, as stated, fails: with slots at 00:00 and 03:00 the query 01:30 is equidistant
  and the lookup returns the name of the later slot.
\<close>

theorem nearest_tie_counterexample:
  "nearestLayerName
     [\<lparr>name = Some ''00'', month = None, time = 0\<rparr>,
      \<lparr>name = Some ''01'', month = None, time = 10800000\<rparr>] 5400000 = Return (Some ''01'')
   \<and> nearestLayerName
     [\<lparr>name = Some ''00'', month = None, time = 0\<rparr>,
      \<lparr>name = Some ''01'', month = None, time = 10800000\<rparr>] 5400000 \<noteq> Return (Some ''00'')"
  by (simp add: nearestLayerName_def nearestScan.simps)

text \<open>
  Claim C2, amended. On a slot list with strictly ascending timestamps, a query exactly
  equidistant between two adjacent slots gets the name of the later one: the comparison
  \<open>dLeft < dRight\<close> is strict, so a tie takes the right-hand branch.
\<close>

theorem nearest_tie_returns_right:
  assumes "sorted_wrt (<) (map time ls)" and "Suc k < length ls"
    and "q - time (ls ! k) = time (ls ! Suc k) - q"
  shows "nearestLayerName ls q = Return (name (ls ! Suc k))"
proof -
  have ne: "ls \<noteq> []" using assms(2) by auto
  have "map time ls ! k < map time ls ! Suc k"
    using sorted_wrt_nth_less[OF assms(1), of k "Suc k"] assms(2) by simp
  then have kk: "time (ls ! k) < time (ls ! Suc k)" using assms(2) by simp
  with assms(3) have lo: "time (ls ! k) < q" and hi: "q < time (ls ! Suc k)" by linarith+
  have "time (ls ! 0) \<le> time (ls ! k)"
    using assms(1,2) by (intro sorted_times_le) auto
  with lo have nf: "\<not> q \<le> time (ls ! 0)" by simp
  have "time (ls ! Suc k) \<le> time (ls ! (length ls - 1))"
    using assms(1,2) by (intro sorted_times_le) auto
  with hi have nl: "\<not> q \<ge> time (ls ! (length ls - 1))" by simp
  have nb: "\<forall>j. 0 \<le> j \<and> j < k \<longrightarrow> \<not> (time (ls ! j) \<le> q \<and> q \<le> time (ls ! Suc j))"
  proof (intro allI impI)
    fix j assume "0 \<le> j \<and> j < k"
    then have "time (ls ! Suc j) \<le> time (ls ! k)"
      using assms(1,2) by (intro sorted_times_le) auto
    with lo show "\<not> (time (ls ! j) \<le> q \<and> q \<le> time (ls ! Suc j))" by simp
  qed
  have "nearestScan ls q 0 = nearestScan ls q k"
    using assms(2) nb by (intro nearestScan_skip) auto
  also have "\<dots> = Some (name (ls ! Suc k))"
    using nearestScan_bracket[OF assms(2), of q] lo hi assms(3) by simp
  finally show ?thesis using ne nf nl by (simp add: nearestLayerName_def)
qed

theorem nearest_tie_returns_right_witness:
  "nearestLayerName
     [\<lparr>name = Some ''00'', month = None, time = 0\<rparr>,
      \<lparr>name = Some ''01'', month = None, time = 10800000\<rparr>,
      \<lparr>name = Some ''02'', month = None, time = 21600000\<rparr>] 16200000 = Return (Some ''02'')"
  using nearest_tie_returns_right
          [of "[\<lparr>name = Some ''00'', month = None, time = 0\<rparr>,
                \<lparr>name = Some ''01'', month = None, time = 10800000\<rparr>,
                \<lparr>name = Some ''02'', month = None, time = 21600000\<rparr>]" 1 16200000]
  by simp

section \<open>Decimal keys\<close>








section \<open>Building the slot list\<close>

lemma fill_frame:
  "layers (WeatherLayer_fill len i s) = layers s \<and>
   pathToData (WeatherLayer_fill len i s) = pathToData s \<and>
   opacity (WeatherLayer_fill len i s) = opacity s \<and>
   detailControl (WeatherLayer_fill len i s) = detailControl s \<and>
   time_ms (WeatherLayer_fill len i s) = time_ms s"
proof (induction len i s rule: WeatherLayer_fill.induct)
  case (1 len i this)
  show ?case
  proof (cases "of_nat i < len")
    case True
    then show ?thesis
      using 1 by (subst (1 2 3 4 5) WeatherLayer_fill.simps) (simp add: Let_def)
  next
    case False
    then show ?thesis by (subst (1 2 3 4 5) WeatherLayer_fill.simps) simp
  qed
qed

lemma fill_layerNames:
  assumes "0 < p" and "i \<le> Suc n" and "length (layerNames s) = i"
    and "startTime (timeSequence s) = st" and "endTime (timeSequence s) = st + int n * p"
    and "period (timeSequence s) = p"
    and "i \<le> n \<longrightarrow> currentTime (timeSequence s) = st + int i * p"
  shows "layerNames (WeatherLayer_fill (of_nat (Suc n)) i s)
         = layerNames s @ map (builtSlot st p) [i..<Suc n]"
  using assms
proof (induction "Suc n - i" arbitrary: i s)
  case 0
  then have "i = Suc n" by simp
  then show ?case by (subst WeatherLayer_fill.simps) simp
next
  case (Suc d)
  then have lt: "i \<le> n" by simp
  then have cur: "currentTime (timeSequence s) = st + int i * p" using Suc.prems by simp
  let ?s' = "s\<lparr>availableTimes := array_put (availableTimes s) i (currentTime (timeSequence s)),
               layerNames := array_put (layerNames s) i
                  \<lparr>name = None, month = Some (if i < 10 then ''0'' @ toString i else toString i),
                   time = currentTime (timeSequence s)\<rparr>,
               timeSequence := nextTime (timeSequence s)\<rparr>"
  have unfold: "WeatherLayer_fill (of_nat (Suc n)) i s = WeatherLayer_fill (of_nat (Suc n)) (Suc i) ?s'"
    using lt by (subst WeatherLayer_fill.simps) (simp add: Let_def)
  have ln: "layerNames ?s' = layerNames s @ [builtSlot st p i]"
    using Suc.prems(3) cur by (simp add: array_put_def builtSlot_def)
  have nx: "Suc i \<le> n \<longrightarrow> currentTime (timeSequence ?s') = st + int (Suc i) * p"
  proof
    assume le: "Suc i \<le> n"
    then have "int (Suc i) * p \<le> int n * p" using Suc.prems(1) by (simp add: mult_right_mono)
    then have "\<not> st + int i * p + p > st + int n * p" by (simp add: algebra_simps)
    then show "currentTime (timeSequence ?s') = st + int (Suc i) * p"
      using cur Suc.prems(5,6) by (simp add: nextTime_def incrementTime_def Let_def algebra_simps)
  qed
  have ts: "startTime (timeSequence ?s') = st" "endTime (timeSequence ?s') = st + int n * p"
           "period (timeSequence ?s') = p"
    using Suc.prems(4,5,6) by (simp_all add: nextTime_def Let_def)
  have "layerNames (WeatherLayer_fill (of_nat (Suc n)) (Suc i) ?s')
        = layerNames ?s' @ map (builtSlot st p) [Suc i..<Suc n]"
  proof (rule Suc.hyps(1))
    show "d = Suc n - Suc i" using Suc.hyps(2) by simp
    show "0 < p" by (rule Suc.prems(1))
    show "Suc i \<le> Suc n" using lt by simp
    show "length (layerNames ?s') = Suc i" using ln Suc.prems(3) by simp
    show "startTime (timeSequence ?s') = st" by (rule ts)
    show "endTime (timeSequence ?s') = st + int n * p" by (rule ts)
    show "period (timeSequence ?s') = p" by (rule ts)
    show "Suc i \<le> n \<longrightarrow> currentTime (timeSequence ?s') = st + int (Suc i) * p" by (rule nx)
  qed
  also have "\<dots> = layerNames s @ map (builtSlot st p) [i..<Suc n]"
  proof -
    have up: "[i..<Suc n] = i # [Suc i..<Suc n]" using lt by (intro upt_conv_Cons) simp
    show ?thesis unfolding up ln by (simp del: upt_Suc)
  qed
  finally show ?case using unfold by simp
qed

lemma subLayers_frame:
  "layerNames (WeatherLayer_subLayers es s) = layerNames s \<and>
   pathToData (WeatherLayer_subLayers es s) = pathToData s \<and>
   opacity (WeatherLayer_subLayers es s) = opacity s \<and>
   detailControl (WeatherLayer_subLayers es s) = detailControl s \<and>
   time_ms (WeatherLayer_subLayers es s) = time_ms s"
  by (induction es arbitrary: s) (simp_all add: Let_def WeatherLayer_createSubLayer_def)

lemma js_length_exact:
  assumes "0 < p"
  shows "(of_int (int n * p) / of_int p + 1 :: rat) = of_nat (Suc n)"
  using assms by simp

lemma prePopulate_fresh:
  assumes "0 < p" and "timeSequence this = PeriodicTimeSequence st (st + int n * p) p"
    and "layerNames this = []" and "length (availableTimes this) \<noteq> Suc n"
  shows "\<exists>this'. WeatherLayer_prePopulate (Some w) this = Some (Inr this') \<and>
           layerNames this' = map (builtSlot st p) [0..<Suc n] \<and>
           pathToData this' = pathToData this \<and> opacity this' = opacity this \<and>
           detailControl this' = detailControl this \<and> time_ms this' = time_ms this"
proof -
  let ?len = "of_nat (Suc n) :: rat"
  have len: "(of_int (intervalMilliseconds (timeSequence this)) / of_int p + 1 :: rat) = ?len"
    using assms(1,2) js_length_exact[OF assms(1), of n]
    by (simp add: intervalMilliseconds_def PeriodicTimeSequence_def)
  have per: "incrementTime (currentTime (timeSequence this)) (period (timeSequence this))
               - currentTime (timeSequence this) = p"
    using assms(2) by (simp add: incrementTime_def PeriodicTimeSequence_def)
  have guard: "(of_nat (length (availableTimes this)) :: rat) \<noteq> ?len"
  proof -
    have "((of_nat (length (availableTimes this)) :: rat) = of_nat (Suc n))
            = (length (availableTimes this) = Suc n)" by (rule of_nat_eq_iff)
    with assms(4) show ?thesis by blast
  qed
  let ?s1 = "WeatherLayer_fill ?len 0 this"
  have ln: "layerNames ?s1 = map (builtSlot st p) [0..<Suc n]"
    using fill_layerNames[of p 0 n this st] assms
    by (simp add: PeriodicTimeSequence_def)
  have eq: "WeatherLayer_prePopulate (Some w) this
              = Some (Inr (WeatherLayer_subLayers (layerNames ?s1) ?s1))"
    unfolding WeatherLayer_prePopulate_def Let_def per len
    using assms(1) guard by (simp del: of_nat_Suc)
  show ?thesis
    unfolding eq using ln subLayers_frame[of "layerNames ?s1" ?s1] fill_frame[of ?len 0 this]
    by simp
qed




lemma array_put_prefix:
  "array_put (map f [0..<i] @ drop i xs0) i (f i) = map f [0..<Suc i] @ drop (Suc i) xs0"
proof (cases "i < length xs0")
  case True
  then have d: "drop i xs0 = xs0 ! i # drop (Suc i) xs0" by (simp add: Cons_nth_drop_Suc)
  have "i < length (map f [0..<i] @ drop i xs0)" using True by simp
  then have "array_put (map f [0..<i] @ drop i xs0) i (f i)
               = (map f [0..<i] @ drop i xs0)[i := f i]"
    by (simp only: array_put_def if_True)
  also have "\<dots> = map f [0..<i] @ (drop i xs0)[0 := f i]"
    by (simp add: list_update_append)
  also have "\<dots> = map f [0..<Suc i] @ drop (Suc i) xs0"
    unfolding d by simp
  finally show ?thesis .
next
  case False
  then show ?thesis by (simp add: array_put_def)
qed

lemma fill_arrays:
  assumes "0 < p" and "i \<le> Suc n"
    and "layerNames s = map (builtSlot st p) [0..<i] @ drop i ls0"
    and "availableTimes s = map (\<lambda>j. st + int j * p) [0..<i] @ drop i a0"
    and "startTime (timeSequence s) = st" and "endTime (timeSequence s) = st + int n * p"
    and "period (timeSequence s) = p"
    and "i \<le> n \<longrightarrow> currentTime (timeSequence s) = st + int i * p"
  shows "layerNames (WeatherLayer_fill (of_nat (Suc n)) i s)
           = map (builtSlot st p) [0..<Suc n] @ drop (Suc n) ls0
       \<and> availableTimes (WeatherLayer_fill (of_nat (Suc n)) i s)
           = map (\<lambda>j. st + int j * p) [0..<Suc n] @ drop (Suc n) a0"
  using assms
proof (induction "Suc n - i" arbitrary: i s)
  case 0
  then have "i = Suc n" by simp
  then show ?case using "0.prems"(3,4) by (subst (1 2) WeatherLayer_fill.simps) simp
next
  case (Suc d)
  then have lt: "i \<le> n" by simp
  then have cur: "currentTime (timeSequence s) = st + int i * p" using Suc.prems by simp
  let ?s' = "s\<lparr>availableTimes := array_put (availableTimes s) i (currentTime (timeSequence s)),
               layerNames := array_put (layerNames s) i
                  \<lparr>name = None, month = Some (if i < 10 then ''0'' @ toString i else toString i),
                   time = currentTime (timeSequence s)\<rparr>,
               timeSequence := nextTime (timeSequence s)\<rparr>"
  have unfold: "WeatherLayer_fill (of_nat (Suc n)) i s = WeatherLayer_fill (of_nat (Suc n)) (Suc i) ?s'"
    using lt by (subst WeatherLayer_fill.simps) (simp add: Let_def)
  have b: "\<lparr>name = None, month = Some (if i < 10 then ''0'' @ toString i else toString i),
            time = currentTime (timeSequence s)\<rparr> = builtSlot st p i"
    using cur by (simp add: builtSlot_def)
  have ln: "layerNames ?s' = map (builtSlot st p) [0..<Suc i] @ drop (Suc i) ls0"
    using array_put_prefix[of "builtSlot st p" i ls0] Suc.prems(3) b by simp
  have av: "availableTimes ?s' = map (\<lambda>j. st + int j * p) [0..<Suc i] @ drop (Suc i) a0"
    using array_put_prefix[of "\<lambda>j. st + int j * p" i a0] Suc.prems(4) cur by simp
  have nx: "Suc i \<le> n \<longrightarrow> currentTime (timeSequence ?s') = st + int (Suc i) * p"
  proof
    assume le: "Suc i \<le> n"
    then have "int (Suc i) * p \<le> int n * p" using Suc.prems(1) by (simp add: mult_right_mono)
    then have "\<not> st + int i * p + p > st + int n * p" by (simp add: algebra_simps)
    then show "currentTime (timeSequence ?s') = st + int (Suc i) * p"
      using cur Suc.prems(6,7) by (simp add: nextTime_def incrementTime_def Let_def algebra_simps)
  qed
  have ts: "startTime (timeSequence ?s') = st" "endTime (timeSequence ?s') = st + int n * p"
           "period (timeSequence ?s') = p"
    using Suc.prems(5,6,7) by (simp_all add: nextTime_def Let_def)
  have "layerNames (WeatherLayer_fill (of_nat (Suc n)) (Suc i) ?s')
           = map (builtSlot st p) [0..<Suc n] @ drop (Suc n) ls0
       \<and> availableTimes (WeatherLayer_fill (of_nat (Suc n)) (Suc i) ?s')
           = map (\<lambda>j. st + int j * p) [0..<Suc n] @ drop (Suc n) a0"
  proof (rule Suc.hyps(1))
    show "d = Suc n - Suc i" using Suc.hyps(2) by simp
    show "0 < p" by (rule Suc.prems(1))
    show "Suc i \<le> Suc n" using lt by simp
    show "layerNames ?s' = map (builtSlot st p) [0..<Suc i] @ drop (Suc i) ls0" by (rule ln)
    show "availableTimes ?s' = map (\<lambda>j. st + int j * p) [0..<Suc i] @ drop (Suc i) a0" by (rule av)
    show "startTime (timeSequence ?s') = st" by (rule ts)
    show "endTime (timeSequence ?s') = st + int n * p" by (rule ts)
    show "period (timeSequence ?s') = p" by (rule ts)
    show "Suc i \<le> n \<longrightarrow> currentTime (timeSequence ?s') = st + int (Suc i) * p" by (rule nx)
  qed
  then show ?case unfolding unfold .
qed

lemma prePopulate_builds:
  assumes "0 < p" and "timeSequence this = PeriodicTimeSequence st (st + int n * p) p"
    and "length (availableTimes this) \<noteq> Suc n"
  shows "\<exists>this'. WeatherLayer_prePopulate (Some w) this = Some (Inr this') \<and>
           layerNames this' = map (builtSlot st p) [0..<Suc n] @ drop (Suc n) (layerNames this) \<and>
           availableTimes this'
             = map (\<lambda>j. st + int j * p) [0..<Suc n] @ drop (Suc n) (availableTimes this)"
proof -
  let ?len = "of_nat (Suc n) :: rat"
  have len: "(of_int (intervalMilliseconds (timeSequence this)) / of_int p + 1 :: rat) = ?len"
    using assms(1,2) js_length_exact[OF assms(1), of n]
    by (simp add: intervalMilliseconds_def PeriodicTimeSequence_def)
  have per: "incrementTime (currentTime (timeSequence this)) (period (timeSequence this))
               - currentTime (timeSequence this) = p"
    using assms(2) by (simp add: incrementTime_def PeriodicTimeSequence_def)
  have guard: "(of_nat (length (availableTimes this)) :: rat) \<noteq> ?len"
  proof -
    have "((of_nat (length (availableTimes this)) :: rat) = of_nat (Suc n))
            = (length (availableTimes this) = Suc n)" by (rule of_nat_eq_iff)
    with assms(3) show ?thesis by blast
  qed
  let ?s1 = "WeatherLayer_fill ?len 0 this"
  have arr: "layerNames ?s1 = map (builtSlot st p) [0..<Suc n] @ drop (Suc n) (layerNames this)
       \<and> availableTimes ?s1
           = map (\<lambda>j. st + int j * p) [0..<Suc n] @ drop (Suc n) (availableTimes this)"
    using fill_arrays[of p 0 n this st "layerNames this" "availableTimes this"] assms(1,2)
    by (simp add: PeriodicTimeSequence_def)
  have eq: "WeatherLayer_prePopulate (Some w) this
              = Some (Inr (WeatherLayer_subLayers (layerNames ?s1) ?s1))"
    unfolding WeatherLayer_prePopulate_def Let_def per len
    using assms(1) guard by (simp del: of_nat_Suc)
  have av: "availableTimes (WeatherLayer_subLayers es s) = availableTimes s" for es s
    by (induction es arbitrary: s) (simp_all add: Let_def WeatherLayer_createSubLayer_def)
  show ?thesis
    unfolding eq using arr subLayers_frame[of "layerNames ?s1" ?s1] av by simp
qed



lemma WeatherLayer_fields:
  "timeSequence WeatherLayer = PeriodicTimeSequence 1468281600000 1468800000000 10800000"
  "layerNames WeatherLayer = []" "availableTimes WeatherLayer = []"
  "layers WeatherLayer = Map.empty"
  "pathToData WeatherLayer = ''/standalonedata/WORLD-CED/test/''"
  "time_ms WeatherLayer = 1468281600000"
  by (simp_all add: WeatherLayer_def layer.extend_def seriesLayer.fields_def)


lemma first_instance_fills_availableTimes:
  "\<exists>first'. WeatherLayer_prePopulate (Some ()) WeatherLayer = Some (Inr first') \<and>
      availableTimes first' = availableTimes secondWeatherLayer"
proof -
  have h: "(0::int) < 10800000"
    "timeSequence WeatherLayer
       = PeriodicTimeSequence 1468281600000 (1468281600000 + int 48 * 10800000) 10800000"
    "length (availableTimes WeatherLayer) \<noteq> Suc 48"
    by (simp_all add: WeatherLayer_fields)
  from prePopulate_builds[OF h, of "()"]
  obtain first' where r: "WeatherLayer_prePopulate (Some ()) WeatherLayer = Some (Inr first')"
    and av: "availableTimes first'
             = map (\<lambda>j. 1468281600000 + int j * 10800000) [0..<Suc 48]
               @ drop (Suc 48) (availableTimes WeatherLayer)"
    by blast
  have s: "Suc 48 = 49" by simp
  have "availableTimes first' = availableTimes secondWeatherLayer"
    unfolding av s by (simp add: secondWeatherLayer_def WeatherLayer_fields del: upt.simps)
  with r show ?thesis by blast
qed




section \<open>Rendering after the slot list is built\<close>

lemma subLayers_unnamed_present:
  assumes "\<forall>e\<in>set es. name e = None" and "layers s ''undefined'' \<noteq> None"
  shows "layers (WeatherLayer_subLayers es s) = layers s"
  using assms by (induction es arbitrary: s) (auto simp: Let_def js_string_def)

lemma subLayers_unnamed:
  assumes "\<forall>e\<in>set es. name e = None" and "es \<noteq> []" and "layers s ''undefined'' = None"
  shows "layers (WeatherLayer_subLayers es s)
         = (layers s)(''undefined'' \<mapsto> BMNGOneImageLayer (Some (pathToData s @ ''undefined.png'')))"
proof (cases es)
  case Nil
  with assms(2) show ?thesis by simp
next
  case (Cons e es')
  let ?s' = "WeatherLayer_createSubLayer None s"
  have l': "layers ?s' = (layers s)(''undefined'' \<mapsto> BMNGOneImageLayer (Some (pathToData s @ ''undefined.png'')))"
    by (simp add: WeatherLayer_createSubLayer_def js_string_def Let_def)
  have "WeatherLayer_subLayers es s = WeatherLayer_subLayers es' ?s'"
    using Cons assms(1,3) by (simp add: Let_def js_string_def)
  moreover have "layers (WeatherLayer_subLayers es' ?s') = layers ?s'"
    using Cons assms(1) l' by (intro subLayers_unnamed_present) simp_all
  ultimately show ?thesis using l' by simp
qed

lemma builtSlots_unnamed: "\<forall>e\<in>set (map (builtSlot st p) [i..<m]). name e = None"
  by (simp add: builtSlot_def)

lemma prePopulate_fresh_layers:
  assumes "0 < p" and "timeSequence this = PeriodicTimeSequence st (st + int n * p) p"
    and "layerNames this = []" and "length (availableTimes this) \<noteq> Suc n"
    and "layers this ''undefined'' = None"
  shows "\<exists>this'. WeatherLayer_prePopulate (Some w) this = Some (Inr this') \<and>
           layerNames this' = map (builtSlot st p) [0..<Suc n] \<and>
           pathToData this' = pathToData this \<and> opacity this' = opacity this \<and>
           detailControl this' = detailControl this \<and> time_ms this' = time_ms this \<and>
           layers this' = (layers this)(''undefined'' \<mapsto>
                             BMNGOneImageLayer (Some (pathToData this @ ''undefined.png'')))"
proof -
  let ?len = "of_nat (Suc n) :: rat"
  have len: "(of_int (intervalMilliseconds (timeSequence this)) / of_int p + 1 :: rat) = ?len"
    using assms(1,2) js_length_exact[OF assms(1), of n]
    by (simp add: intervalMilliseconds_def PeriodicTimeSequence_def)
  have per: "incrementTime (currentTime (timeSequence this)) (period (timeSequence this))
               - currentTime (timeSequence this) = p"
    using assms(2) by (simp add: incrementTime_def PeriodicTimeSequence_def)
  have guard: "(of_nat (length (availableTimes this)) :: rat) \<noteq> ?len"
  proof -
    have "((of_nat (length (availableTimes this)) :: rat) = of_nat (Suc n))
            = (length (availableTimes this) = Suc n)" by (rule of_nat_eq_iff)
    with assms(4) show ?thesis by blast
  qed
  let ?s1 = "WeatherLayer_fill ?len 0 this"
  have ln: "layerNames ?s1 = map (builtSlot st p) [0..<Suc n]"
    using fill_layerNames[of p 0 n this st] assms(1,2,3)
    by (simp add: PeriodicTimeSequence_def)
  have eq: "WeatherLayer_prePopulate (Some w) this
              = Some (Inr (WeatherLayer_subLayers (layerNames ?s1) ?s1))"
    unfolding WeatherLayer_prePopulate_def Let_def per len
    using assms(1) guard by (simp del: of_nat_Suc)
  have fr: "layers ?s1 = layers this" "pathToData ?s1 = pathToData this"
    using fill_frame[of ?len 0 this] by simp_all
  have ly: "layers (WeatherLayer_subLayers (layerNames ?s1) ?s1)
         = (layers ?s1)(''undefined'' \<mapsto> BMNGOneImageLayer (Some (pathToData ?s1 @ ''undefined.png'')))"
  proof -
    have "\<forall>e\<in>set (map (builtSlot st p) [0..<Suc n]). name e = None"
      by (rule builtSlots_unnamed)
    moreover have "map (builtSlot st p) [0..<Suc n] \<noteq> []" by simp
    moreover have "layers ?s1 ''undefined'' = None" using fr(1) assms(5) by (simp only:)
    ultimately show ?thesis unfolding ln by (rule subLayers_unnamed)
  qed
  show ?thesis
    unfolding eq using ln ly fr subLayers_frame[of "layerNames ?s1" ?s1] fill_frame[of ?len 0 this]
    by simp
qed

lemma nearestLayerName_unnamed:
  assumes "ls \<noteq> []" and "\<forall>e\<in>set ls. name e = None"
  shows "nearestLayerName ls q = Return None"
proof -
  from nearestLayerName_selects[OF assms(1), of q]
  obtain k where "k < length ls" "nearestLayerName ls q = Return (name (ls ! k))" by blast
  with assms(2) show ?thesis by simp
qed

lemma doRender_unnamed:
  assumes "layerNames this \<noteq> []" and "\<forall>e\<in>set (layerNames this). name e = None"
    and "layers this ''undefined'' = Some l"
  shows "WeatherLayer_doRender subRender this =
     Inr (this\<lparr>layers := (layers this)(''undefined'' \<mapsto>
                   subRender (if detailControl this \<noteq> None \<and> detailControl this \<noteq> Some 0
                              then l\<lparr>opacity := opacity this, detailControl := detailControl this\<rparr>
                              else l\<lparr>opacity := opacity this\<rparr>)),
               inCurrentFrame := inCurrentFrame
                   (subRender (if detailControl this \<noteq> None \<and> detailControl this \<noteq> Some 0
                              then l\<lparr>opacity := opacity this, detailControl := detailControl this\<rparr>
                              else l\<lparr>opacity := opacity this\<rparr>))\<rparr>)"
proof -
  have n: "nearestLayerName (layerNames this) (time_ms this) = Return None"
    using assms(1,2) by (rule nearestLayerName_unnamed)
  have nl: "nearestLayer (time_ms this) this = Inr (''undefined'', this)"
    using assms(3) by (simp add: nearestLayer_def n js_string_def)
  show ?thesis
    using assms(3) by (simp add: WeatherLayer_doRender_def nl Let_def)
qed

lemma doRender_hands_over:
  assumes "nearestLayerName (layerNames this) (time_ms this) = Return (Some nm)"
  shows "\<exists>l. (case layers this nm of
                 None \<Rightarrow> l = BMNGOneImageLayer (Some (pathToData this @ nm @ ''.png''))
               | Some l0 \<Rightarrow> l = l0) \<and>
          WeatherLayer_doRender subRender this =
            Inr (this\<lparr>layers := (layers this)(nm \<mapsto>
                   subRender (if detailControl this \<noteq> None \<and> detailControl this \<noteq> Some 0
                              then l\<lparr>opacity := opacity this, detailControl := detailControl this\<rparr>
                              else l\<lparr>opacity := opacity this\<rparr>)),
               inCurrentFrame := inCurrentFrame
                   (subRender (if detailControl this \<noteq> None \<and> detailControl this \<noteq> Some 0
                              then l\<lparr>opacity := opacity this, detailControl := detailControl this\<rparr>
                              else l\<lparr>opacity := opacity this\<rparr>))\<rparr>)"
proof (cases "layers this nm")
  case None
  then show ?thesis
    using assms
    by (simp add: WeatherLayer_doRender_def nearestLayer_def js_string_def
        WeatherLayer_createSubLayer_def Let_def)
next
  case (Some l0)
  then show ?thesis
    using assms
    by (simp add: WeatherLayer_doRender_def nearestLayer_def js_string_def Let_def)
qed

lemma doRender_empty_throws:
  assumes "layerNames this = []"
  shows "WeatherLayer_doRender subRender this = Inl TypeError"
  using assms by (simp add: WeatherLayer_doRender_def nearestLayer_def nearestLayerName_def)

lemma TimeSeriesLayer_doRender_off_slot_throws:
  assumes "map_of (layerNames this) (dateString (time_ms this)) = None"
    and "layers this ''undefined'' = None"
  shows "TimeSeriesLayer_doRender dateString subRender this = Inl TypeError"
  using assms by (simp add: TimeSeriesLayer_doRender_def js_string_def Let_def)

text \<open>
  Claim C3 at a failing input: a new WeatherLayer, \<open>prePopulate\<close>, then \<open>doRender\<close>
  at the time of the first slot. The slot carries its key \<open>00\<close> in \<open>month\<close>, the
  lookup reads \<open>name\<close>, and the sub-layer rendered is the one for the name
  \<open>undefined\<close>; no sub-layer for \<open>00\<close> exists.
\<close>

theorem doRender_reads_missing_name:
  "\<exists>this' this''. WeatherLayer_prePopulate (Some ()) WeatherLayer = Some (Inr this') \<and>
      month (layerNames this' ! 0) = Some ''00'' \<and>
      time (layerNames this' ! 0) = time_ms this' \<and>
      WeatherLayer_doRender (\<lambda>l. l) this' = Inr this'' \<and>
      layers this'' ''00'' = None \<and>
      map_option imagePath (layers this'' ''undefined'')
        = Some ''/standalonedata/WORLD-CED/test/undefined.png''"
proof -
  have h: "(0::int) < 10800000"
    "timeSequence WeatherLayer
       = PeriodicTimeSequence 1468281600000 (1468281600000 + int 48 * 10800000) 10800000"
    "layerNames WeatherLayer = []" "length (availableTimes WeatherLayer) \<noteq> Suc 48"
    "layers WeatherLayer ''undefined'' = None"
    by (simp_all add: WeatherLayer_def layer.extend_def seriesLayer.fields_def)
  from prePopulate_fresh_layers[OF h, of "()"]
  obtain this' where r: "WeatherLayer_prePopulate (Some ()) WeatherLayer = Some (Inr this')"
    and ln: "layerNames this' = map (builtSlot 1468281600000 10800000) [0..<Suc 48]"
    and tm: "time_ms this' = time_ms WeatherLayer"
    and pd: "pathToData this' = pathToData WeatherLayer"
    and ly: "layers this' = (layers WeatherLayer)(''undefined'' \<mapsto>
               BMNGOneImageLayer (Some (pathToData WeatherLayer @ ''undefined.png'')))"
    by blast
  have ne: "layerNames this' \<noteq> []" using ln by simp
  have un: "\<forall>e\<in>set (layerNames this'). name e = None"
    using builtSlots_unnamed[of 1468281600000 10800000 0 "Suc 48"] ln by (simp only:)
  have s0: "layerNames this' ! 0 = builtSlot 1468281600000 10800000 0"
    using ln by (simp add: upt_conv_Cons del: upt_Suc)
  have m0: "month (layerNames this' ! 0) = Some ''00''"
    unfolding s0 by (simp add: builtSlot_def toString.simps digit_def)
  have t0: "time (layerNames this' ! 0) = time_ms this'"
    unfolding s0 tm by (simp add: builtSlot_def WeatherLayer_def layer.extend_def seriesLayer.fields_def)
  have lu: "layers this' ''undefined''
              = Some (BMNGOneImageLayer (Some (pathToData WeatherLayer @ ''undefined.png'')))"
    unfolding ly by simp
  have l00: "layers this' ''00'' = None"
    unfolding ly by (simp add: WeatherLayer_def layer.extend_def seriesLayer.fields_def)
  note dr = doRender_unnamed[OF ne un lu, of "\<lambda>l. l"]
  show ?thesis
    apply (intro exI conjI)
         apply (rule r)
        apply (rule m0)
       apply (rule t0)
      apply (rule dr)
     apply (simp add: l00)
    apply (simp add: BMNGOneImageLayer_def layer.extend_def oneImageLayer.fields_def
        WeatherLayer_def seriesLayer.fields_def)
    done
qed

section \<open>isPrePopulated\<close>

lemma TimeSeriesLayer_allPopulated_iff:
  assumes "\<forall>e\<in>set es. ls (snd e) \<noteq> None"
  shows "TimeSeriesLayer_allPopulated (Some w) cache ls es
         = Inr (\<forall>e\<in>set es. \<exists>l. ls (snd e) = Some l \<and> containsResource cache (imagePath l))"
  using assms
proof (induction es)
  case Nil
  then show ?case by simp
next
  case (Cons a es)
  obtain key nm where a: "a = (key, nm)" by (cases a)
  from Cons.prems a obtain l where l: "ls nm = Some l" by auto
  from Cons have ih: "TimeSeriesLayer_allPopulated (Some w) cache ls es
         = Inr (\<forall>e\<in>set es. \<exists>l. ls (snd e) = Some l \<and> containsResource cache (imagePath l))"
    by simp
  show ?case
    unfolding a using l ih
    by (simp add: OneImageLayer_isPrePopulated_def isImageLayerInMemory_def)
qed

lemma TimeSeriesLayer_isPrePopulated_checks_images:
  assumes "\<forall>e\<in>set (layerNames this). layers this (snd e) \<noteq> None"
  shows "TimeSeriesLayer_isPrePopulated (Some w) cache this
         = Inr (\<forall>e\<in>set (layerNames this).
                  \<exists>l. layers this (snd e) = Some l \<and> containsResource cache (imagePath l))"
  using assms unfolding TimeSeriesLayer_isPrePopulated_def
  by (rule TimeSeriesLayer_allPopulated_iff)

text \<open>
  Claim C8 at a failing input: a new WeatherLayer after \<open>prePopulate\<close>, with an empty
  resource cache. The layer has 49 slots, the image of slot \<open>00\<close> is not in the cache,
  and \<open>isPrePopulated\<close> returns \<open>true\<close>.
\<close>

theorem WeatherLayer_isPrePopulated_without_images:
  "\<exists>this'. WeatherLayer_prePopulate (Some ()) WeatherLayer = Some (Inr this') \<and>
      length (layerNames this') = 49 \<and>
      month (layerNames this' ! 0) = Some ''00'' \<and>
      \<not> isImageLayerInMemory Map.empty
           (BMNGOneImageLayer (Some (pathToData this' @ ''00'' @ ''.png''))) \<and>
      WeatherLayer_isPrePopulated (Some ()) this' = True"
proof -
  have h: "(0::int) < 10800000"
    "timeSequence WeatherLayer
       = PeriodicTimeSequence 1468281600000 (1468281600000 + int 48 * 10800000) 10800000"
    "layerNames WeatherLayer = []" "length (availableTimes WeatherLayer) \<noteq> Suc 48"
    by (simp_all add: WeatherLayer_def layer.extend_def seriesLayer.fields_def)
  from prePopulate_fresh[OF h, of "()"]
  obtain this' where r: "WeatherLayer_prePopulate (Some ()) WeatherLayer = Some (Inr this')"
    and ln: "layerNames this' = map (builtSlot 1468281600000 10800000) [0..<Suc 48]"
    by blast
  have len: "length (layerNames this') = 49" using ln by simp
  have s0: "layerNames this' ! 0 = builtSlot 1468281600000 10800000 0"
    using ln by (simp add: upt_conv_Cons del: upt_Suc)
  have m0: "month (layerNames this' ! 0) = Some ''00''"
    unfolding s0 by (simp add: builtSlot_def toString.simps digit_def)
  have nm: "\<not> isImageLayerInMemory Map.empty
           (BMNGOneImageLayer (Some (pathToData this' @ ''00'' @ ''.png'')))"
    by (simp add: isImageLayerInMemory_def containsResource_def)
  have t: "WeatherLayer_isPrePopulated (Some ()) this' = True"
    by (simp add: WeatherLayer_isPrePopulated_def)
  from r len m0 nm t show ?thesis by blast
qed

section \<open>At most one fetch per identifier\<close>

lemma consistent_retrieveImage:
  assumes "retrievals_consistent this"
  shows "retrievals_consistent (retrieveImage u now tile sr this)"
  using assms
  by (auto simp: retrievals_consistent_def retrieveImage_def split: option.splits)

lemma distinct_drop_nth:
  assumes "distinct (map f xs)" and "k < length xs"
  shows "distinct (map f (take k xs @ drop (Suc k) xs))"
    and "f (xs ! k) \<notin> set (map f (take k xs @ drop (Suc k) xs))"
    and "set (map f (take k xs @ drop (Suc k) xs)) \<subseteq> set (map f xs)"
proof -
  have split: "xs = take k xs @ xs ! k # drop (Suc k) xs"
    using assms(2) by (rule id_take_nth_drop)
  have d: "distinct (map f (take k xs @ xs ! k # drop (Suc k) xs))"
    using assms(1) split by simp
  from d show "distinct (map f (take k xs @ drop (Suc k) xs))" by auto
  from d show "f (xs ! k) \<notin> set (map f (take k xs @ drop (Suc k) xs))" by auto
  have "set (take k xs @ drop (Suc k) xs) \<subseteq> set xs"
    using set_take_subset[of k xs] set_drop_subset[of "Suc k" xs] by auto
  then show "set (map f (take k xs @ drop (Suc k) xs)) \<subseteq> set (map f xs)" by auto
qed

lemma consistent_completion:
  assumes "retrievals_consistent this" and "k < length (images this)"
  shows "distinct (removeFromCurrentRetrievals (path (images this ! k)) (currentRetrievals this))"
    and "distinct (map path (take k (images this) @ drop (Suc k) (images this)))"
    and "set (map path (take k (images this) @ drop (Suc k) (images this)))
           \<subseteq> set (removeFromCurrentRetrievals (path (images this ! k)) (currentRetrievals this))"
proof -
  let ?rest = "take k (images this) @ drop (Suc k) (images this)"
  from assms(1) have dc: "distinct (currentRetrievals this)"
    and di: "distinct (map path (images this))"
    and sub: "set (map path (images this)) \<subseteq> set (currentRetrievals this)"
    by (simp_all add: retrievals_consistent_def)
  show "distinct (removeFromCurrentRetrievals (path (images this ! k)) (currentRetrievals this))"
    using dc by (simp add: removeFromCurrentRetrievals_def)
  show "distinct (map path ?rest)" using distinct_drop_nth(1)[OF di assms(2)] .
  have "set (map path ?rest) \<subseteq> set (currentRetrievals this) - {path (images this ! k)}"
    using distinct_drop_nth(2,3)[OF di assms(2)] sub by blast
  then show "set (map path ?rest)
           \<subseteq> set (removeFromCurrentRetrievals (path (images this ! k)) (currentRetrievals this))"
    using dc by (simp add: removeFromCurrentRetrievals_def)
qed

lemma consistent_onload:
  assumes "retrievals_consistent this" and "k < length (images this)"
  shows "retrievals_consistent
           (case onload logger (images this ! k) created
                   (this\<lparr>images := take k (images this) @ drop (Suc k) (images this)\<rparr>) of
              Inl e \<Rightarrow> this\<lparr>images := take k (images this) @ drop (Suc k) (images this)\<rparr>
            | Inr this1 \<Rightarrow> this1)"
proof (cases logger)
  case None
  from assms(1) have dc: "distinct (currentRetrievals this)"
    and di: "distinct (map path (images this))"
    and sub: "set (map path (images this)) \<subseteq> set (currentRetrievals this)"
    by (simp_all add: retrievals_consistent_def)
  have "set (map path (take k (images this) @ drop (Suc k) (images this)))
          \<subseteq> set (currentRetrievals this)"
    using distinct_drop_nth(3)[OF di assms(2)] sub by blast
  then show ?thesis
    using None dc distinct_drop_nth(1)[OF di assms(2)]
    by (simp add: onload_def retrievals_consistent_def)
next
  case (Some lg)
  then show ?thesis
    using consistent_completion[OF assms]
    by (cases created) (simp_all add: retrievals_consistent_def onload_def Let_def)
qed

lemma consistent_onerror:
  assumes "retrievals_consistent this" and "k < length (images this)"
  shows "retrievals_consistent
           (onerror (images this ! k) now
              (this\<lparr>images := take k (images this) @ drop (Suc k) (images this)\<rparr>))"
  using consistent_completion[OF assms]
  by (simp add: retrievals_consistent_def onerror_def)

lemma consistent_step:
  assumes "retrievals_consistent this"
  shows "retrievals_consistent (step u this ev)"
proof (cases ev)
  case (Call_retrieveImage tile sr now)
  then show ?thesis using assms by (simp add: consistent_retrieveImage)
next
  case (Call_prePopulate now)
  then show ?thesis using assms
    by (simp add: BMNGOneImageLayer_prePopulate_def consistent_retrieveImage)
next
  case (Fire_onload k created)
  then show ?thesis using assms by (simp add: consistent_onload)
next
  case (Fire_onerror k now)
  then show ?thesis using assms by (simp add: consistent_onerror)
qed

lemma consistent_run:
  assumes "retrievals_consistent this"
  shows "retrievals_consistent (run u this evs)"
  using assms unfolding run_def
  by (induction evs arbitrary: this) (simp_all add: consistent_step)

lemma filter_distinct_le_one:
  assumes "distinct (map f xs)"
  shows "length (filter (\<lambda>x. f x = y) xs) \<le> Suc 0"
  using assms
proof (induction xs)
  case Nil
  then show ?case by simp
next
  case (Cons x xs)
  show ?case
  proof (cases "f x = y")
    case True
    with Cons.prems have "\<forall>z\<in>set xs. f z \<noteq> y" by (auto simp: image_iff)
    then have "filter (\<lambda>x. f x = y) xs = []" by (simp add: filter_empty_conv)
    with True show ?thesis by simp
  next
    case False
    with Cons show ?thesis by simp
  qed
qed

lemma consistent_outstanding:
  assumes "retrievals_consistent this"
  shows "outstanding this p \<le> 1"
    and "0 < outstanding this p \<Longrightarrow> p \<in> set (currentRetrievals this)"
proof -
  from assms have di: "distinct (map path (images this))"
    and sub: "set (map path (images this)) \<subseteq> set (currentRetrievals this)"
    by (simp_all add: retrievals_consistent_def)
  show "outstanding this p \<le> 1"
    using filter_distinct_le_one[OF di, of p] by (simp add: outstanding_def)
  assume "0 < outstanding this p"
  then have "filter (\<lambda>img. path img = p) (images this) \<noteq> []"
    by (simp add: outstanding_def)
  then obtain img where "img \<in> set (images this)" "path img = p"
    by (auto simp: filter_empty_conv)
  then show "p \<in> set (currentRetrievals this)" using sub by auto
qed

lemma retrieveImage_in_flight:
  "imagePath tile \<in> set (currentRetrievals this) \<Longrightarrow> retrieveImage u now tile sr this = this"
  by (simp add: retrieveImage_def)

text \<open>
  Claim C1. From a layer with nothing in flight, after any sequence of calls of
  \<open>retrieveImage\<close> and \<open>prePopulate\<close> and of completions of outstanding images, at
  most one fetch per identifier is outstanding; and while one is outstanding, a further
  \<open>retrieveImage\<close> for that identifier changes nothing, so it issues no fetch.
\<close>

theorem at_most_one_fetch_outstanding:
  assumes "currentRetrievals this0 = []" and "images this0 = []"
  shows "outstanding (run u this0 evs) p \<le> 1 \<and>
         (0 < outstanding (run u this0 evs) (imagePath tile) \<longrightarrow>
            retrieveImage u now tile sr (run u this0 evs) = run u this0 evs)"
proof -
  have "retrievals_consistent this0"
    using assms by (simp add: retrievals_consistent_def)
  then have c: "retrievals_consistent (run u this0 evs)" by (rule consistent_run)
  show ?thesis
    using consistent_outstanding[OF c] retrieveImage_in_flight by blast
qed

theorem at_most_one_fetch_outstanding_witness:
  "outstanding
     (run (\<lambda>p. Some (''http://host/'' @ p)) (newRetrievalLayer (Some ''00.png'') 60000)
        [Call_retrieveImage (BMNGOneImageLayer (Some ''00.png'')) False 0,
         Call_retrieveImage (BMNGOneImageLayer (Some ''00.png'')) False 1]) ''00.png'' = 1
   \<and> retrieveImage (\<lambda>p. Some (''http://host/'' @ p)) 2 (BMNGOneImageLayer (Some ''00.png'')) False
       (run (\<lambda>p. Some (''http://host/'' @ p)) (newRetrievalLayer (Some ''00.png'') 60000)
          [Call_retrieveImage (BMNGOneImageLayer (Some ''00.png'')) False 0,
           Call_retrieveImage (BMNGOneImageLayer (Some ''00.png'')) False 1])
     = run (\<lambda>p. Some (''http://host/'' @ p)) (newRetrievalLayer (Some ''00.png'') 60000)
          [Call_retrieveImage (BMNGOneImageLayer (Some ''00.png'')) False 0,
           Call_retrieveImage (BMNGOneImageLayer (Some ''00.png'')) False 1]"
proof -
  let ?u = "\<lambda>p. Some (''http://host/'' @ p)"
  let ?l0 = "newRetrievalLayer (Some ''00.png'') 60000"
  let ?tile = "BMNGOneImageLayer (Some ''00.png'')"
  let ?evs = "[Call_retrieveImage ?tile False 0, Call_retrieveImage ?tile False 1]"
  have fresh: "currentRetrievals ?l0 = []" "images ?l0 = []"
    by (simp_all add: newRetrievalLayer_def oneImageLayer.extend_def retrievalLayer.fields_def)
  have path: "imagePath ?tile = ''00.png''"
    by (simp add: BMNGOneImageLayer_def layer.extend_def oneImageLayer.fields_def)
  have one: "outstanding (run ?u ?l0 ?evs) ''00.png'' = 1"
    by (simp add: run_def retrieveImage_def outstanding_def isResourceAbsent_def path
        newRetrievalLayer_def oneImageLayer.extend_def retrievalLayer.fields_def)
  from at_most_one_fetch_outstanding[OF fresh, of ?u ?evs "''00.png''" ?tile 2 False] one path
  show ?thesis by simp
qed

section \<open>The handlers of a retrieval\<close>

lemma example_layer:
  "currentRetrievals (newRetrievalLayer (Some ''00.png'') 60000) = []"
  "images (newRetrievalLayer (Some ''00.png'') 60000) = []"
  "redrawEvents (newRetrievalLayer (Some ''00.png'') 60000) = 0"
  "gpuResourceCache (newRetrievalLayer (Some ''00.png'') 60000) = Map.empty"
  "absentResourceList (newRetrievalLayer (Some ''00.png'') 60000)
     = \<lparr>coolDownDuration = 60000, markedAt = Map.empty\<rparr>"
  "imagePath (BMNGOneImageLayer (Some ''00.png'')) = ''00.png''"
  by (simp_all add: newRetrievalLayer_def oneImageLayer.extend_def retrievalLayer.fields_def
      BMNGOneImageLayer_def layer.extend_def oneImageLayer.fields_def)

lemma absent_after_failure:
  "isResourceAbsent (absentResourceList (onerror img failedAt this)) (path img) later
     = (later - failedAt < coolDownDuration (absentResourceList this))"
  by (simp add: onerror_def isResourceAbsent_def markResourceAbsent_def)

lemma retrieveImage_absent:
  "isResourceAbsent (absentResourceList this) (imagePath tile) now \<Longrightarrow>
     retrieveImage u now tile sr this = this"
  by (simp add: retrieveImage_def)

lemma retrieveImage_issues:
  assumes "imagePath tile \<notin> set (currentRetrievals this)"
    and "\<not> isResourceAbsent (absentResourceList this) (imagePath tile) now"
    and "u (imagePath tile) = Some url" and "url \<noteq> []"
  shows "retrieveImage u now tile sr this =
     this\<lparr>currentRetrievals := currentRetrievals this @ [imagePath tile],
          images := images this @ [\<lparr>src = url, path = imagePath tile, suppress = sr\<rparr>]\<rparr>"
  using assms by (simp add: retrieveImage_def)

lemma removed_from_retrievals:
  "distinct rs \<Longrightarrow> p \<notin> set (removeFromCurrentRetrievals p rs)"
  by (simp add: removeFromCurrentRetrievals_def)

text \<open>
  Claim C6. When the fetch of an identifier fails at a time, the handler takes the
  identifier out of the in-flight list, marks it absent at that time, and dispatches no
  redraw event and starts no fetch. While an identifier is absent, \<open>retrieveImage\<close> for
  it changes nothing; after the failure a call within the cool-down changes nothing, and a
  call once the cool-down has expired issues one fetch.
\<close>

theorem fetch_failure_marks_absent:
  assumes "distinct (currentRetrievals this)" and "imagePath tile = path img"
    and "u (path img) = Some url" and "url \<noteq> []"
  shows "path img \<notin> set (currentRetrievals (onerror img failedAt this))
     \<and> markedAt (absentResourceList (onerror img failedAt this)) (path img) = Some failedAt
     \<and> redrawEvents (onerror img failedAt this) = redrawEvents this
     \<and> images (onerror img failedAt this) = images this
     \<and> (later - failedAt < coolDownDuration (absentResourceList this) \<longrightarrow>
          retrieveImage u later tile sr (onerror img failedAt this) = onerror img failedAt this)
     \<and> (later - failedAt \<ge> coolDownDuration (absentResourceList this) \<longrightarrow>
          images (retrieveImage u later tile sr (onerror img failedAt this))
            = images this @ [\<lparr>src = url, path = path img, suppress = sr\<rparr>])
     \<and> (isResourceAbsent (absentResourceList other) (imagePath tile) later \<longrightarrow>
          retrieveImage u later tile sr other = other)"
proof -
  let ?e = "onerror img failedAt this"
  have a: "path img \<notin> set (currentRetrievals ?e)"
    using assms(1) by (simp add: onerror_def removed_from_retrievals)
  have b: "markedAt (absentResourceList ?e) (path img) = Some failedAt"
    by (simp add: onerror_def markResourceAbsent_def)
  have c: "redrawEvents ?e = redrawEvents this" "images ?e = images this"
    by (simp_all add: onerror_def)
  have d: "retrieveImage u later tile sr ?e = ?e"
    if "later - failedAt < coolDownDuration (absentResourceList this)"
    using that absent_after_failure[of img failedAt this later] assms(2)
    by (intro retrieveImage_absent) simp
  have e: "images (retrieveImage u later tile sr ?e)
            = images this @ [\<lparr>src = url, path = path img, suppress = sr\<rparr>]"
    if "later - failedAt \<ge> coolDownDuration (absentResourceList this)"
  proof -
    have na: "\<not> isResourceAbsent (absentResourceList ?e) (imagePath tile) later"
      using that absent_after_failure[of img failedAt this later] assms(2) by simp
    have nf: "imagePath tile \<notin> set (currentRetrievals ?e)" using a assms(2) by simp
    have uu: "u (imagePath tile) = Some url" using assms(2,3) by simp
    have "retrieveImage u later tile sr ?e =
            ?e\<lparr>currentRetrievals := currentRetrievals ?e @ [imagePath tile],
               images := images ?e @ [\<lparr>src = url, path = imagePath tile, suppress = sr\<rparr>]\<rparr>"
      using nf na uu assms(4) by (rule retrieveImage_issues)
    then show ?thesis using c(2) assms(2) by simp
  qed
  have f: "isResourceAbsent (absentResourceList other) (imagePath tile) later \<longrightarrow>
          retrieveImage u later tile sr other = other"
    using retrieveImage_absent by blast
  from a b c d e f show ?thesis by blast
qed

theorem fetch_failure_marks_absent_witness:
  "markedAt (absentResourceList
       (onerror \<lparr>src = ''http://host/00.png'', path = ''00.png'', suppress = False\<rparr> 1000
          (newRetrievalLayer (Some ''00.png'') 60000))) ''00.png'' = Some 1000
   \<and> retrieveImage (\<lambda>p. Some (''http://host/'' @ p)) 2000 (BMNGOneImageLayer (Some ''00.png'')) False
       (onerror \<lparr>src = ''http://host/00.png'', path = ''00.png'', suppress = False\<rparr> 1000
          (newRetrievalLayer (Some ''00.png'') 60000))
     = onerror \<lparr>src = ''http://host/00.png'', path = ''00.png'', suppress = False\<rparr> 1000
          (newRetrievalLayer (Some ''00.png'') 60000)
   \<and> images (retrieveImage (\<lambda>p. Some (''http://host/'' @ p)) 61000
                (BMNGOneImageLayer (Some ''00.png'')) False
       (onerror \<lparr>src = ''http://host/00.png'', path = ''00.png'', suppress = False\<rparr> 1000
          (newRetrievalLayer (Some ''00.png'') 60000)))
     = [\<lparr>src = ''http://host/00.png'', path = ''00.png'', suppress = False\<rparr>]"
proof -
  let ?u = "\<lambda>p. Some (''http://host/'' @ p)"
  let ?l0 = "newRetrievalLayer (Some ''00.png'') 60000"
  let ?tile = "BMNGOneImageLayer (Some ''00.png'')"
  let ?img = "\<lparr>src = ''http://host/00.png'', path = ''00.png'', suppress = False\<rparr>"
  have h: "distinct (currentRetrievals ?l0)" "imagePath ?tile = path ?img"
    "?u (path ?img) = Some ''http://host/00.png''" "''http://host/00.png'' \<noteq> []"
    by (simp_all add: example_layer)
  have cd: "coolDownDuration (absentResourceList ?l0) = 60000" "images ?l0 = []"
    by (simp_all add: example_layer)
  from fetch_failure_marks_absent
         [where u = ?u and this = ?l0 and tile = ?tile and img = ?img
            and url = "''http://host/00.png''" and failedAt = 1000 and later = 2000 and sr = False]
       fetch_failure_marks_absent
         [where u = ?u and this = ?l0 and tile = ?tile and img = ?img
            and url = "''http://host/00.png''" and failedAt = 1000 and later = 61000 and sr = False]
       h cd
  show ?thesis by simp
qed

lemma example_fetch:
  "retrieveImage (\<lambda>p. Some (''http://host/'' @ p)) 0 (BMNGOneImageLayer (Some ''00.png'')) False
      (newRetrievalLayer (Some ''00.png'') 60000)
   = (newRetrievalLayer (Some ''00.png'') 60000)
       \<lparr>currentRetrievals := [''00.png''],
        images := [\<lparr>src = ''http://host/00.png'', path = ''00.png'', suppress = False\<rparr>]\<rparr>"
proof -
  have "retrieveImage (\<lambda>p. Some (''http://host/'' @ p)) 0 (BMNGOneImageLayer (Some ''00.png'')) False
      (newRetrievalLayer (Some ''00.png'') 60000)
   = (newRetrievalLayer (Some ''00.png'') 60000)
       \<lparr>currentRetrievals := currentRetrievals (newRetrievalLayer (Some ''00.png'') 60000)
                               @ [imagePath (BMNGOneImageLayer (Some ''00.png''))],
        images := images (newRetrievalLayer (Some ''00.png'') 60000) @
          [\<lparr>src = ''http://host/00.png'',
            path = imagePath (BMNGOneImageLayer (Some ''00.png'')), suppress = False\<rparr>]\<rparr>"
    by (rule retrieveImage_issues) (simp_all add: example_layer isResourceAbsent_def)
  then show ?thesis by (simp only: example_layer append_Nil)
qed

lemma onload_without_Logger: "onload Logger img created this = Inl ReferenceError"
  by (simp add: onload_def Logger_def)

lemma onload_with_Logger_caches_and_notifies:
  assumes "distinct (currentRetrievals this)"
  shows "\<exists>this'. onload (Some lg) img (Some texture) this = Inr this'
     \<and> gpuResourceCache this' (path img) = Some (texture, tex_size texture)
     \<and> (\<forall>k. k \<noteq> path img \<longrightarrow> gpuResourceCache this' k = gpuResourceCache this k)
     \<and> path img \<notin> set (currentRetrievals this')
     \<and> markedAt (absentResourceList this') (path img) = None
     \<and> redrawEvents this' = (if suppress img then redrawEvents this else redrawEvents this + 1)"
  using assms
  by (simp add: onload_def putResource_def unmarkResourceAbsent_def Let_def
      removed_from_retrievals)

lemma onload_with_Logger_without_texture:
  assumes "imagePath tile \<notin> set (currentRetrievals this)"
    and "\<not> isResourceAbsent (absentResourceList this) (imagePath tile) issuedAt"
    and "u (imagePath tile) = Some url" and "url \<noteq> []" and "issuedAt \<le> later"
  shows "\<exists>this2.
       onload (Some lg) \<lparr>src = url, path = imagePath tile, suppress = sr\<rparr> None
         ((retrieveImage u issuedAt tile sr this)\<lparr>images := images this\<rparr>) = Inr this2
     \<and> gpuResourceCache this2 = gpuResourceCache this
     \<and> absentResourceList this2 = absentResourceList this
     \<and> redrawEvents this2 = redrawEvents this
     \<and> imagePath tile \<notin> set (currentRetrievals this2)
     \<and> images (retrieveImage u later tile sr' this2)
          = images this @ [\<lparr>src = url, path = imagePath tile, suppress = sr'\<rparr>]"
proof -
  let ?img = "\<lparr>src = url, path = imagePath tile, suppress = sr\<rparr>"
  have s1: "retrieveImage u issuedAt tile sr this
              = this\<lparr>currentRetrievals := currentRetrievals this @ [imagePath tile],
                     images := images this @ [?img]\<rparr>"
    using assms(1-4) by (rule retrieveImage_issues)
  have rm: "remove1 (imagePath tile) (currentRetrievals this @ [imagePath tile])
              = currentRetrievals this"
    using assms(1) by (simp add: remove1_append)
  let ?s2 = "this\<lparr>currentRetrievals := currentRetrievals this, images := images this\<rparr>"
  have o: "onload (Some lg) ?img None ((retrieveImage u issuedAt tile sr this)\<lparr>images := images this\<rparr>)
             = Inr ?s2"
    unfolding s1 by (simp add: onload_def removeFromCurrentRetrievals_def rm Let_def)
  have na: "\<not> isResourceAbsent (absentResourceList this) (imagePath tile) later"
    using assms(2,5) by (auto simp: isResourceAbsent_def split: option.splits)
  have retry: "images (retrieveImage u later tile sr' ?s2)
                 = images this @ [\<lparr>src = url, path = imagePath tile, suppress = sr'\<rparr>]"
    using assms(1,3,4) na by (simp add: retrieveImage_def)
  show ?thesis
    apply (rule exI[of _ ?s2])
    apply (intro conjI)
         apply (rule o)
        apply simp
       apply simp
      apply simp
     apply (simp add: assms(1))
    apply (rule retry)
    done
qed

text \<open>
  Claim C7 at a failing input: a layer on \<open>00.png\<close> issues its fetch, the image loads
  and a texture would be created. The handler throws at its first statement: the texture
  is not in the cache, the path is still in flight, and no redraw event is dispatched.
\<close>

theorem onload_throws_before_caching:
  "onload Logger \<lparr>src = ''http://host/00.png'', path = ''00.png'', suppress = False\<rparr>
       (Some \<lparr>imageSource = ''http://host/00.png'', tex_size = 8388608\<rparr>)
       ((retrieveImage (\<lambda>p. Some (''http://host/'' @ p)) 0 (BMNGOneImageLayer (Some ''00.png''))
           False (newRetrievalLayer (Some ''00.png'') 60000))\<lparr>images := []\<rparr>)
     = Inl ReferenceError
   \<and> gpuResourceCache
       (step (\<lambda>p. Some (''http://host/'' @ p))
          (retrieveImage (\<lambda>p. Some (''http://host/'' @ p)) 0 (BMNGOneImageLayer (Some ''00.png''))
             False (newRetrievalLayer (Some ''00.png'') 60000))
          (Fire_onload 0 (Some \<lparr>imageSource = ''http://host/00.png'', tex_size = 8388608\<rparr>)))
       ''00.png'' = None
   \<and> currentRetrievals
       (step (\<lambda>p. Some (''http://host/'' @ p))
          (retrieveImage (\<lambda>p. Some (''http://host/'' @ p)) 0 (BMNGOneImageLayer (Some ''00.png''))
             False (newRetrievalLayer (Some ''00.png'') 60000))
          (Fire_onload 0 (Some \<lparr>imageSource = ''http://host/00.png'', tex_size = 8388608\<rparr>)))
       = [''00.png'']
   \<and> redrawEvents
       (step (\<lambda>p. Some (''http://host/'' @ p))
          (retrieveImage (\<lambda>p. Some (''http://host/'' @ p)) 0 (BMNGOneImageLayer (Some ''00.png''))
             False (newRetrievalLayer (Some ''00.png'') 60000))
          (Fire_onload 0 (Some \<lparr>imageSource = ''http://host/00.png'', tex_size = 8388608\<rparr>)))
       = 0"
  unfolding example_fetch by (simp add: onload_without_Logger example_layer)

text \<open>
  Claim C9 at a failing input: the same fetch, the image loads and no texture is created.
  The handler throws before it reaches \<open>removeFromCurrentRetrievals\<close>: the path stays
  in flight with no fetch outstanding, and the next \<open>retrieveImage\<close> for it changes
  nothing and issues no fetch.
\<close>

theorem decode_failure_leaves_path_in_flight:
  "currentRetrievals
       (step (\<lambda>p. Some (''http://host/'' @ p))
          (retrieveImage (\<lambda>p. Some (''http://host/'' @ p)) 0 (BMNGOneImageLayer (Some ''00.png''))
             False (newRetrievalLayer (Some ''00.png'') 60000))
          (Fire_onload 0 None))
       = [''00.png'']
   \<and> images
       (step (\<lambda>p. Some (''http://host/'' @ p))
          (retrieveImage (\<lambda>p. Some (''http://host/'' @ p)) 0 (BMNGOneImageLayer (Some ''00.png''))
             False (newRetrievalLayer (Some ''00.png'') 60000))
          (Fire_onload 0 None))
       = []
   \<and> images
       (retrieveImage (\<lambda>p. Some (''http://host/'' @ p)) 1 (BMNGOneImageLayer (Some ''00.png'')) False
          (step (\<lambda>p. Some (''http://host/'' @ p))
             (retrieveImage (\<lambda>p. Some (''http://host/'' @ p)) 0
                (BMNGOneImageLayer (Some ''00.png'')) False
                (newRetrievalLayer (Some ''00.png'') 60000))
             (Fire_onload 0 None)))
       = []"
  unfolding example_fetch by (simp add: onload_without_Logger retrieveImage_def example_layer)

text \<open>
  Claim C10. Neither \<open>retrieveImage\<close> nor the failure handler touches the resource
  cache: after a fetch is issued and fails, the cache is the one before the call, and every
  identifier is in memory exactly if it was before.
\<close>

theorem fetch_failure_leaves_cache:
  "gpuResourceCache (onerror img now this) = gpuResourceCache this
   \<and> gpuResourceCache (retrieveImage u issuedAt tile sr this) = gpuResourceCache this
   \<and> gpuResourceCache (step u (retrieveImage u issuedAt tile sr this) (Fire_onerror k now))
       = gpuResourceCache this
   \<and> isImageLayerInMemory
       (gpuResourceCache (step u (retrieveImage u issuedAt tile sr this) (Fire_onerror k now))) tile'
       = isImageLayerInMemory (gpuResourceCache this) tile'"
proof -
  have a: "gpuResourceCache (onerror i n s) = gpuResourceCache s" for i n s
    by (simp add: onerror_def)
  have b: "gpuResourceCache (retrieveImage u issuedAt tile sr this) = gpuResourceCache this"
    by (simp add: retrieveImage_def split: option.splits)
  have c: "gpuResourceCache (step u s (Fire_onerror k now)) = gpuResourceCache s" for s
    by (simp add: a)
  show ?thesis using a b c by simp
qed

theorem fetch_failure_leaves_cache_witness:
  "gpuResourceCache
     (step (\<lambda>p. Some (''http://host/'' @ p))
        (retrieveImage (\<lambda>p. Some (''http://host/'' @ p)) 0 (BMNGOneImageLayer (Some ''00.png'')) False
           (newRetrievalLayer (Some ''00.png'') 60000))
        (Fire_onerror 0 5))
     = Map.empty"
proof -
  have "gpuResourceCache
     (step (\<lambda>p. Some (''http://host/'' @ p))
        (retrieveImage (\<lambda>p. Some (''http://host/'' @ p)) 0 (BMNGOneImageLayer (Some ''00.png'')) False
           (newRetrievalLayer (Some ''00.png'') 60000))
        (Fire_onerror 0 5))
     = gpuResourceCache (newRetrievalLayer (Some ''00.png'') 60000)"
    using fetch_failure_leaves_cache
          [where u = "\<lambda>p. Some (''http://host/'' @ p)" and issuedAt = 0
             and tile = "BMNGOneImageLayer (Some ''00.png'')" and sr = False
             and this = "newRetrievalLayer (Some ''00.png'') 60000" and k = 0 and now = 5]
    by blast
  then show ?thesis by (simp only: example_layer(4))
qed

end
